theory Spec2Isabelle
  imports Complex_Main "HOL-Library.AList"
begin

section \<open>Python values and the dictionary operations the bridge uses\<close>

text \<open>
  The issue snapshots are what \<^verbatim>\<open>requests.get(...).json()\<close> returns: trees of
  dictionaries, lists, strings, integers, booleans and \<^verbatim>\<open>None\<close>. A dictionary is an
  association list in insertion order. Numbers with a fractional part do not occur in the
  fields the bridge reads and are left out of the type.
\<close>

datatype json =
    JNull
  | JBool bool
  | JNum int
  | JStr string
  | JArr "json list"
  | JObj "(string \<times> json) list"

text \<open>The exceptions the bridge can raise; \<open>KeyError\<close> carries the missing key.\<close>

datatype error = KeyError string | TypeError | AttributeError | ValueError

text \<open>Sequencing of computations that may raise: the first exception wins.\<close>

definition andthen :: "error + 'a \<Rightarrow> ('a \<Rightarrow> error + 'b) \<Rightarrow> error + 'b" where
  "andthen m f = (case m of Inl e \<Rightarrow> Inl e | Inr x \<Rightarrow> f x)"

text \<open>\<^verbatim>\<open>d[k]\<close>: a missing key raises \<open>KeyError\<close>; a value that is not a dictionary cannot
  be indexed by a string and raises \<open>TypeError\<close>.\<close>

fun py_getitem :: "json \<Rightarrow> string \<Rightarrow> error + json" where
  "py_getitem (JObj kvs) k = (case map_of kvs k of None \<Rightarrow> Inl (KeyError k) | Some v \<Rightarrow> Inr v)"
| "py_getitem _ k = Inl TypeError"

text \<open>\<^verbatim>\<open>d.get(k, default)\<close>: only dictionaries have the method.\<close>

fun py_get :: "json \<Rightarrow> string \<Rightarrow> json \<Rightarrow> error + json" where
  "py_get (JObj kvs) k d = (case map_of kvs k of None \<Rightarrow> Inr d | Some v \<Rightarrow> Inr v)"
| "py_get _ k d = Inl AttributeError"

text \<open>\<^verbatim>\<open>s in t\<close> on strings is the substring test.\<close>

fun is_substring :: "string \<Rightarrow> string \<Rightarrow> bool" where
  "is_substring s [] = (s = [])"
| "is_substring s (c # cs) = (take (length s) (c # cs) = s \<or> is_substring s cs)"

text \<open>\<^verbatim>\<open>k in x\<close> for a string \<open>k\<close>: key membership on a dictionary, element membership
  on a list, the substring test on a string, \<open>TypeError\<close> on anything else.\<close>

fun py_contains :: "string \<Rightarrow> json \<Rightarrow> error + bool" where
  "py_contains k (JObj kvs) = Inr (k \<in> set (map fst kvs))"
| "py_contains k (JArr xs) = Inr (JStr k \<in> set xs)"
| "py_contains k (JStr s) = Inr (is_substring k s)"
| "py_contains k _ = Inl TypeError"

text \<open>\<^verbatim>\<open>d[k] = v\<close> on a dictionary: an existing key keeps its place, a new key goes last.\<close>

fun py_setitem :: "json \<Rightarrow> string \<Rightarrow> json \<Rightarrow> error + json" where
  "py_setitem (JObj kvs) k v = Inr (JObj (AList.update k v kvs))"
| "py_setitem _ k v = Inl TypeError"

text \<open>\<^verbatim>\<open>for x in xs\<close>: a list yields its elements, a dictionary its keys, a string its
  characters; nothing else is iterable.\<close>

fun py_iter :: "json \<Rightarrow> error + json list" where
  "py_iter (JArr xs) = Inr xs"
| "py_iter (JObj kvs) = Inr (map (\<lambda>kv. JStr (fst kv)) kvs)"
| "py_iter (JStr s) = Inr (map (\<lambda>c. JStr [c]) s)"
| "py_iter _ = Inl TypeError"

text \<open>Truth value of a Python object, as \<^verbatim>\<open>not x\<close> and \<^verbatim>\<open>if x:\<close> read it.\<close>

fun truthy :: "json \<Rightarrow> bool" where
  "truthy JNull = False"
| "truthy (JBool b) = b"
| "truthy (JNum n) = (n \<noteq> 0)"
| "truthy (JStr s) = (s \<noteq> [])"
| "truthy (JArr xs) = (xs \<noteq> [])"
| "truthy (JObj kvs) = (kvs \<noteq> [])"

subsection \<open>Rendering values inside f-strings\<close>

fun digit_char :: "nat \<Rightarrow> char" where
  "digit_char n = char_of (48 + n)"

fun nat_digits :: "nat \<Rightarrow> string" where
  "nat_digits n = (if n < 10 then [digit_char n] else nat_digits (n div 10) @ [digit_char (n mod 10)])"

declare nat_digits.simps [simp del]

definition int_str :: "int \<Rightarrow> string" where
  "int_str i = (if i < 0 then CHR ''-'' # nat_digits (nat (- i)) else nat_digits (nat i))"

text \<open>\<^verbatim>\<open>repr\<close> of a string of printable ASCII: single quotes, unless the string holds a
  single quote and no double quote; the quote in use and the backslash are escaped.\<close>

definition repr_str :: "string \<Rightarrow> string" where
  "repr_str s =
     (let q = (if CHR 0x27 \<in> set s \<and> CHR 0x22 \<notin> set s then CHR 0x22 else CHR 0x27)
      in [q] @ concat (map (\<lambda>c. if c = q \<or> c = CHR 0x5C then [CHR 0x5C, c] else [c]) s) @ [q])"

fun join :: "string \<Rightarrow> string list \<Rightarrow> string" where
  "join sep [] = []"
| "join sep [x] = x"
| "join sep (x # y # ys) = x @ sep @ join sep (y # ys)"

fun py_repr :: "json \<Rightarrow> string" where
  "py_repr JNull = ''None''"
| "py_repr (JBool b) = (if b then ''True'' else ''False'')"
| "py_repr (JNum n) = int_str n"
| "py_repr (JStr s) = repr_str s"
| "py_repr (JArr xs) = ''['' @ join '', '' (map py_repr xs) @ '']''"
| "py_repr (JObj kvs) =
     ''{'' @ join '', '' (map (\<lambda>kv. repr_str (fst kv) @ '': '' @ py_repr (snd kv)) kvs) @ ''}''"

text \<open>\<^verbatim>\<open>str(x)\<close>, which an f-string applies to each substituted value.\<close>

fun py_str :: "json \<Rightarrow> string" where
  "py_str (JStr s) = s"
| "py_str v = py_repr v"

section \<open>Configuration, events and the watermark store\<close>

text \<open>The settings of \<^verbatim>\<open>class Config\<close>, as read from the YAML file.\<close>

record Config =
  jira_url :: string
  jira_user :: string
  jira_pass :: string
  jira_base :: string
  pubsub_url :: string
  debug :: bool
  poll_interval :: int

text \<open>
  An event is a Python dictionary from field names to values. A value is a value of the
  snapshot, a string built by the bridge (a \<open>JStr\<close>), or a POSIX timestamp: the float
  that \<^verbatim>\<open>datetime.timestamp()\<close> returns, here a real number of seconds.
\<close>

datatype evalue = EJson json | EFloat real

type_synonym event = "(string \<times> evalue) list"

text \<open>
  The two library functions the bridge relies on are parameters of the model:
  \<^verbatim>\<open>datetime.strptime(t, "%Y-%m-%dT%H:%M:%S.%f%z")\<close>, which gives the instant in
  microseconds since the epoch or fails with \<open>ValueError\<close> (\<open>None\<close>), and
  \<^verbatim>\<open>str.format(**event)\<close>, which gives the target URL or raises.
\<close>

record pylib =
  strptime :: "string \<Rightarrow> int option"
  str_format :: "string \<Rightarrow> event \<Rightarrow> error + string"

text \<open>\<^verbatim>\<open>UPDATES\<close>, the global watermark store. Dictionary keys must be hashable, and
  \<^verbatim>\<open>True\<close> and \<^verbatim>\<open>1\<close> are the same key.\<close>

type_synonym store = "json \<Rightarrow> real option"

fun hash_key :: "json \<Rightarrow> error + json" where
  "hash_key (JArr xs) = Inl TypeError"
| "hash_key (JObj kvs) = Inl TypeError"
| "hash_key (JBool b) = Inr (JNum (if b then 1 else 0))"
| "hash_key k = Inr k"

definition store_get :: "store \<Rightarrow> json \<Rightarrow> real \<Rightarrow> error + real" where
  "store_get UPDATES k d =
     andthen (hash_key k) (\<lambda>h. Inr (case UPDATES h of None \<Rightarrow> d | Some v \<Rightarrow> v))"

definition store_set :: "store \<Rightarrow> json \<Rightarrow> real \<Rightarrow> error + store" where
  "store_set UPDATES k v = andthen (hash_key k) (\<lambda>h. Inr (UPDATES(h \<mapsto> v)))"

section \<open>The ticket parser\<close>

record JiraTicket =
  key :: json
  link :: string
  summary :: json
  created :: int
  last_update :: real
  events :: "event list"
  json_data :: json

text \<open>\<^verbatim>\<open>jira_to_datetime\<close>: \<open>strptime\<close> wants a string and raises \<open>ValueError\<close> on a
  string that does not match the format.\<close>

fun jira_to_datetime :: "pylib \<Rightarrow> json \<Rightarrow> error + int" where
  "jira_to_datetime lib (JStr s) =
     (case strptime lib s of None \<Rightarrow> Inl ValueError | Some d \<Rightarrow> Inr d)"
| "jira_to_datetime lib _ = Inl TypeError"

text \<open>\<^verbatim>\<open>datetime.timestamp()\<close>: seconds since the epoch.\<close>

definition timestamp :: "int \<Rightarrow> real" where
  "timestamp d = real_of_int d / 1000000"

text \<open>\<^verbatim>\<open>JiraTicket.__init__\<close>. \<open>LAUNCH_TIME\<close> is the module constant set from
  \<^verbatim>\<open>time.time()\<close> at import.\<close>

definition JiraTicket_init ::
  "pylib \<Rightarrow> real \<Rightarrow> store \<Rightarrow> Config \<Rightarrow> json \<Rightarrow> error + JiraTicket" where
  "JiraTicket_init lib LAUNCH_TIME UPDATES config data =
     andthen (py_getitem data ''key'') (\<lambda>k.
     andthen (py_getitem data ''fields'') (\<lambda>fields.
     andthen (py_get fields ''summary'' (JStr ''(No summary available)'')) (\<lambda>summ.
     andthen (py_getitem fields ''created'') (\<lambda>c.
     andthen (jira_to_datetime lib c) (\<lambda>cr.
     andthen (store_get UPDATES k LAUNCH_TIME) (\<lambda>lu.
       Inr \<lparr>key = k, link = jira_base config @ py_str k, summary = summ, created = cr,
            last_update = lu, events = [], json_data = data\<rparr>))))))"

text \<open>\<^verbatim>\<open>self.key.split("-", 1)[0]\<close>: only strings have \<open>split\<close>.\<close>

fun project_of :: "json \<Rightarrow> error + string" where
  "project_of (JStr s) = Inr (takeWhile (\<lambda>c. c \<noteq> CHR ''-'') s)"
| "project_of _ = Inl AttributeError"

fun is_dict :: "json \<Rightarrow> bool" where
  "is_dict (JObj kvs) = True"
| "is_dict _ = False"

text \<open>The effective time of an entry:
  \<^verbatim>\<open>self.jira_to_datetime(entry.get("updated", entry["created"])).timestamp()\<close>.\<close>

definition change_epoch :: "pylib \<Rightarrow> json \<Rightarrow> error + real" where
  "change_epoch lib entry =
     andthen (if is_dict entry then py_getitem entry ''created'' else Inl AttributeError) (\<lambda>c.
     andthen (py_get entry ''updated'' c) (\<lambda>u.
     andthen (jira_to_datetime lib u) (\<lambda>d. Inr (timestamp d))))"

text \<open>The rewrite of \<open>author\<close> from \<open>creator\<close>: the entry as the assignment leaves it.\<close>

definition rewrite_author :: "json \<Rightarrow> error + json" where
  "rewrite_author entry =
     andthen (py_contains ''author'' entry) (\<lambda>has_author.
     andthen (if \<not> has_author then py_contains ''creator'' entry else Inr False) (\<lambda>rewrite.
     if rewrite
     then andthen (py_getitem entry ''creator'') (py_setitem entry ''author'')
     else Inr entry))"

text \<open>The author's display name and user id, \<^verbatim>\<open>"??"\<close> for both when there is none.\<close>

definition author_of :: "json \<Rightarrow> error + (json \<times> json)" where
  "author_of entry =
     andthen (py_contains ''author'' entry) (\<lambda>has_author.
     if has_author
     then andthen (py_getitem entry ''author'') (\<lambda>a.
          andthen (py_get a ''displayName'' (JStr ''??'')) (\<lambda>author_name.
          andthen (py_get a ''name'' (JStr ''??'')) (\<lambda>author_uid.
            Inr (author_name, author_uid))))
     else Inr (JStr ''??'', JStr ''??''))"

text \<open>
  \<^verbatim>\<open>make_event_dict\<close>. The entry is a dictionary inside the snapshot, and the method
  may write an \<open>author\<close> key into it, so the model returns the entry as the method leaves
  it, next to the base event (\<open>None\<close> for the bare \<^verbatim>\<open>return\<close>).
\<close>

definition make_event_dict ::
  "pylib \<Rightarrow> JiraTicket \<Rightarrow> json \<Rightarrow> error + (json \<times> event option)" where
  "make_event_dict lib t entry =
     andthen (py_contains ''created'' entry) (\<lambda>has_created.
     if \<not> has_created then Inr (entry, None)
     else
       andthen (change_epoch lib entry) (\<lambda>epoch.
       if epoch \<le> last_update t then Inr (entry, None)
       else
         andthen (rewrite_author entry) (\<lambda>entry'.
         andthen (author_of entry') (\<lambda>author.
         andthen (project_of (key t)) (\<lambda>project.
         andthen (py_getitem entry' ''created'') (\<lambda>c'.
         andthen (jira_to_datetime lib c') (\<lambda>d'.
           Inr (entry',
                Some [(''key'', EJson (key t)),
                      (''link'', EJson (JStr (link t))),
                      (''summary'', EJson (summary t)),
                      (''project'', EJson (JStr project)),
                      (''action'', EJson (JStr ''unknown'')),
                      (''author'', EJson (fst author)),
                      (''author_uid'', EJson (snd author)),
                      (''timestamp'', EFloat epoch),
                      (''base_entry_created'', EFloat (timestamp d'))]))))))))"

text \<open>\<^verbatim>\<open>event[k] = v\<close> on an event.\<close>

definition ev_set :: "event \<Rightarrow> string \<Rightarrow> evalue \<Rightarrow> event" where
  "ev_set ev k v = AList.update k v ev"

definition ev_str :: "event \<Rightarrow> string \<Rightarrow> string \<Rightarrow> event" where
  "ev_str ev k s = ev_set ev k (EJson (JStr s))"

text \<open>The text \<^verbatim>\<open><{self.link}|{self.key}>\<close> that most sentences share.\<close>

definition link_key :: "JiraTicket \<Rightarrow> string" where
  "link_key t = ''<'' @ link t @ ''|'' @ py_str (key t) @ ''>''"

text \<open>
  The body of the inner loop of \<^verbatim>\<open>parse_changelog\<close> for one item: the events it appends
  to \<^verbatim>\<open>self.events\<close>, none or one. In the \<open>resolution\<close> branch the source's sentence
  ends after \<^verbatim>\<open>from \<close>: the f-string on the next line is a statement of its own.
\<close>

definition classify_item :: "JiraTicket \<Rightarrow> event \<Rightarrow> json \<Rightarrow> error + event list" where
  "classify_item t base_event item =
     (let new_event = base_event in
      andthen (py_get item ''field'' JNull) (\<lambda>field.
      if field = JStr ''resolution'' then
        andthen (py_get item ''fromString'' JNull) (\<lambda>from_string.
        if \<not> truthy from_string then
          andthen (py_get item ''toString'' (JStr ''Unresolved'')) (\<lambda>res.
          if last_update t > 0 then
            Inr [ev_str (ev_set (ev_str new_event ''action'' ''close'') ''resolution'' (EJson res))
                   ''action_human_text''
                   (''closed '' @ link_key t @ '' as _'' @ py_str res @ ''_.'')]
          else Inr [])
        else if last_update t > 0 then
          andthen (py_get item ''fromString'' JNull) (\<lambda>old_resolution.
          andthen (py_get item ''toString'' (JStr ''Unresolved'')) (\<lambda>new_resolution.
            Inr [ev_str (ev_set (ev_set (ev_str new_event ''action'' ''resolution'')
                     ''from'' (EJson old_resolution)) ''to'' (EJson new_resolution))
                   ''action_human_text''
                   (''changed the resolution of '' @ link_key t @ '' from '')]))
        else Inr [])
      else if field = JStr ''status'' then
        andthen (py_get item ''fromString'' (JStr [])) (\<lambda>old_status.
        andthen (py_get item ''toString'' JNull) (\<lambda>new_status.
        if last_update t > 0 then
          Inr [ev_str (ev_set (ev_set (ev_str new_event ''action'' ''status'')
                   ''from'' (EJson old_status)) ''to'' (EJson new_status))
                 ''action_human_text''
                 (''changed the status of '' @ link_key t @ '' to *'' @ py_str new_status @ ''*.'')]
        else Inr []))
      else if field = JStr ''summary'' then
        andthen (py_get item ''fromString'' (JStr [])) (\<lambda>old_summary.
        andthen (py_get item ''toString'' JNull) (\<lambda>new_summary.
        if last_update t > 0 then
          Inr [ev_str (ev_set (ev_set (ev_str new_event ''action'' ''summary'')
                   ''from'' (EJson old_summary)) ''to'' (EJson new_summary))
                 ''action_human_text''
                 (''changed the summary of '' @ link_key t)]
        else Inr []))
      else if field = JStr ''description'' then
        andthen (py_get item ''fromString'' (JStr [])) (\<lambda>old_description.
        andthen (py_get item ''toString'' JNull) (\<lambda>new_description.
        if last_update t > 0 then
          Inr [ev_str (ev_set (ev_set (ev_str new_event ''action'' ''description'')
                   ''from'' (EJson old_description)) ''to'' (EJson new_description))
                 ''action_human_text''
                 (''changed the description of '' @ link_key t)]
        else Inr []))
      else if field = JStr ''assignee'' then
        andthen (py_get item ''fromString'' (JStr [])) (\<lambda>old_assignee.
        andthen (py_get item ''toString'' (JStr [])) (\<lambda>new_assignee.
        if last_update t > 0 then
          Inr [ev_str (ev_set (ev_set (ev_str new_event ''action'' ''assign'')
                   ''from'' (EJson old_assignee)) ''to'' (EJson new_assignee))
                 ''action_human_text''
                 (if truthy new_assignee
                  then ''assigned *'' @ py_str new_assignee @ ''* to '' @ link_key t @ ''.''
                  else ''unassigned *'' @ py_str old_assignee @ ''* from '' @ link_key t @ ''.'')]
        else Inr []))
      else Inr []))"

text \<open>The inner loop of \<^verbatim>\<open>parse_changelog\<close> over \<^verbatim>\<open>change["items"]\<close>.\<close>

fun history_items :: "JiraTicket \<Rightarrow> event \<Rightarrow> json list \<Rightarrow> error + event list" where
  "history_items t base_event [] = Inr []"
| "history_items t base_event (item # items) =
     andthen (classify_item t base_event item) (\<lambda>es.
     andthen (history_items t base_event items) (\<lambda>es'. Inr (es @ es')))"

definition classify_change :: "JiraTicket \<Rightarrow> event \<Rightarrow> json \<Rightarrow> error + event list" where
  "classify_change t base_event change =
     andthen (py_getitem change ''items'') (\<lambda>items.
     andthen (py_iter items) (history_items t base_event))"

text \<open>The loop body of \<^verbatim>\<open>parse_comments\<close> after the base event is made.\<close>

definition classify_comment :: "JiraTicket \<Rightarrow> event \<Rightarrow> json \<Rightarrow> error + event list" where
  "classify_comment t base_event comment =
     (if map_of base_event ''base_entry_created'' \<noteq> map_of base_event ''timestamp'' then
        if last_update t > 0 then
          andthen (py_getitem comment ''body'') (\<lambda>body.
            Inr [ev_str (ev_set (ev_str base_event ''action'' ''comment_edit'') ''body'' (EJson body))
                   ''action_human_text'' ''edited a comment''])
        else Inr []
      else if last_update t > 0 then
        andthen (py_getitem comment ''body'') (\<lambda>body.
          Inr [ev_str (ev_set (ev_str base_event ''action'' ''comment'') ''body'' (EJson body))
                 ''action_human_text'' ''added a comment''])
      else Inr [])"

text \<open>The loop body of \<^verbatim>\<open>parse_worklog\<close> after the base event is made.\<close>

definition classify_worklog :: "JiraTicket \<Rightarrow> event \<Rightarrow> json \<Rightarrow> error + event list" where
  "classify_worklog t base_event worklog =
     (if map_of base_event ''base_entry_created'' \<noteq> map_of base_event ''timestamp'' then
        if last_update t > 0 then
          andthen (py_getitem worklog ''comment'') (\<lambda>body.
          andthen (py_getitem worklog ''timeSpentSeconds'') (\<lambda>spent.
            Inr [ev_str (ev_set (ev_set (ev_str base_event ''action'' ''comment_edit'')
                     ''body'' (EJson body)) ''timespent'' (EJson spent))
                   ''action_human_text'' ''edited a worklog entry'']))
        else Inr []
      else if last_update t > 0 then
        andthen (py_getitem worklog ''comment'') (\<lambda>body.
        andthen (py_getitem worklog ''timeSpentSeconds'') (\<lambda>spent.
          Inr [ev_str (ev_set (ev_set (ev_str base_event ''action'' ''comment'')
                   ''body'' (EJson body)) ''timespent'' (EJson spent))
                 ''action_human_text'' ''added a worklog entry'']))
      else Inr [])"

text \<open>
  The three methods share their outer loop: for each element, make the base event, skip
  the element when there is none, classify it otherwise. The loop returns the elements as
  \<^verbatim>\<open>make_event_dict\<close> left them and the events appended to \<^verbatim>\<open>self.events\<close>, in order.
\<close>

fun scan_entries ::
  "pylib \<Rightarrow> JiraTicket \<Rightarrow> (event \<Rightarrow> json \<Rightarrow> error + event list) \<Rightarrow> json list
     \<Rightarrow> error + (json list \<times> event list)" where
  "scan_entries lib t classify [] = Inr ([], [])"
| "scan_entries lib t classify (entry # rest) =
     andthen (make_event_dict lib t entry) (\<lambda>r.
     andthen (case snd r of None \<Rightarrow> Inr [] | Some base_event \<Rightarrow> classify base_event (fst r)) (\<lambda>es.
     andthen (scan_entries lib t classify rest) (\<lambda>r'.
       Inr (fst r # fst r', es @ snd r'))))"

text \<open>
  The elements of a list are dictionaries of the snapshot itself, so what
  \<^verbatim>\<open>make_event_dict\<close> wrote into them shows in \<^verbatim>\<open>self.json_data\<close>: \<open>set_path\<close>
  puts the list back where it was read. (Keys and characters, which a dictionary or a string
  yields when iterated, are strings and cannot be written to.)
\<close>

fun set_path :: "string list \<Rightarrow> json \<Rightarrow> json \<Rightarrow> json" where
  "set_path [] v j = v"
| "set_path (k # ks) v (JObj kvs) =
     (case map_of kvs k of
        None \<Rightarrow> JObj kvs
      | Some c \<Rightarrow> JObj (AList.update k (set_path ks v c) kvs))"
| "set_path (k # ks) v j = j"

definition write_back :: "string list \<Rightarrow> json \<Rightarrow> json list \<Rightarrow> json \<Rightarrow> json" where
  "write_back path elements xs data =
     (case elements of JArr _ \<Rightarrow> set_path path (JArr xs) data | _ \<Rightarrow> data)"

text \<open>The lists the three methods walk, as the source reads them out of the snapshot.\<close>

definition changelog_elements :: "json \<Rightarrow> error + json" where
  "changelog_elements data =
     andthen (py_get data ''changelog'' (JObj [])) (\<lambda>changelog.
       py_get changelog ''histories'' (JArr []))"

definition comment_elements :: "json \<Rightarrow> error + json" where
  "comment_elements data =
     andthen (py_getitem data ''fields'') (\<lambda>fields.
     andthen (py_get fields ''comment'' (JObj [])) (\<lambda>comment.
       py_get comment ''comments'' (JArr [])))"

definition worklog_elements :: "json \<Rightarrow> error + json" where
  "worklog_elements data =
     andthen (py_getitem data ''fields'') (\<lambda>fields.
     andthen (py_get fields ''worklog'' (JObj [])) (\<lambda>worklog.
       py_get worklog ''worklogs'' (JArr [])))"

definition parse_changelog :: "pylib \<Rightarrow> JiraTicket \<Rightarrow> error + JiraTicket" where
  "parse_changelog lib t =
     andthen (changelog_elements (json_data t)) (\<lambda>elements.
     andthen (py_iter elements) (\<lambda>xs.
     andthen (scan_entries lib t (classify_change t) xs) (\<lambda>r.
       Inr (t\<lparr>events := events t @ snd r,
              json_data := write_back [''changelog'', ''histories''] elements (fst r)
                             (json_data t)\<rparr>))))"

definition parse_comments :: "pylib \<Rightarrow> JiraTicket \<Rightarrow> error + JiraTicket" where
  "parse_comments lib t =
     andthen (comment_elements (json_data t)) (\<lambda>elements.
     andthen (py_iter elements) (\<lambda>xs.
     andthen (scan_entries lib t (classify_comment t) xs) (\<lambda>r.
       Inr (t\<lparr>events := events t @ snd r,
              json_data := write_back [''fields'', ''comment'', ''comments''] elements (fst r)
                             (json_data t)\<rparr>))))"

definition parse_worklog :: "pylib \<Rightarrow> JiraTicket \<Rightarrow> error + JiraTicket" where
  "parse_worklog lib t =
     andthen (worklog_elements (json_data t)) (\<lambda>elements.
     andthen (py_iter elements) (\<lambda>xs.
     andthen (scan_entries lib t (classify_worklog t) xs) (\<lambda>r.
       Inr (t\<lparr>events := events t @ snd r,
              json_data := write_back [''fields'', ''worklog'', ''worklogs''] elements (fst r)
                             (json_data t)\<rparr>))))"

section \<open>Fetching and processing a change set\<close>

text \<open>
  What \<^verbatim>\<open>requests.get(...).json()\<close> can do: raise a \<open>RequestException\<close> (no
  connection, a timeout, a body that is not JSON) or return the decoded body.
\<close>

datatype http_result = RequestException | Body json

text \<open>\<^verbatim>\<open>fetch_changes\<close>. The handler of \<open>AssertionError\<close> prints and falls off the end
  of the function, which returns \<^verbatim>\<open>None\<close>.\<close>

fun fetch_changes :: "http_result \<Rightarrow> json" where
  "fetch_changes RequestException = JArr []"
| "fetch_changes (Body (JObj kvs)) = (case map_of kvs ''issues'' of None \<Rightarrow> JArr [] | Some v \<Rightarrow> v)"
| "fetch_changes (Body _) = JNull"

text \<open>\<^verbatim>\<open>timedelta.seconds\<close> of a difference of two instants (in microseconds): the
  seconds within the day, after the days are taken out.\<close>

definition td_seconds :: "int \<Rightarrow> int" where
  "td_seconds d = (d mod 86400000000) div 1000000"

text \<open>\<^verbatim>\<open>event["timestamp"]\<close>; every event carries a float there.\<close>

definition ev_timestamp :: "event \<Rightarrow> error + real" where
  "ev_timestamp e =
     (case map_of e ''timestamp'' of
        None \<Rightarrow> Inl (KeyError ''timestamp'')
      | Some (EFloat r) \<Rightarrow> Inr r
      | Some (EJson _) \<Rightarrow> Inl TypeError)"

fun ev_timestamps :: "event list \<Rightarrow> error + real list" where
  "ev_timestamps [] = Inr []"
| "ev_timestamps (e # es) =
     andthen (ev_timestamp e) (\<lambda>r. andthen (ev_timestamps es) (\<lambda>rs. Inr (r # rs)))"

text \<open>\<^verbatim>\<open>max\<close> of a list; the empty list raises \<open>ValueError\<close>.\<close>

fun py_max :: "real list \<Rightarrow> error + real" where
  "py_max [] = Inl ValueError"
| "py_max (x # xs) = Inr (fold max xs x)"

text \<open>
  The \<^verbatim>\<open>if\<close> block of \<^verbatim>\<open>process_changes\<close> under the comment
  \<^verbatim>\<open># Is this a brand-new issue?\<close>. \<open>now\<close> is the wall-clock instant read once before
  the loop, in microseconds. When \<^verbatim>\<open>make_event_dict\<close> returns \<^verbatim>\<open>None\<close>, the
  assignment into it raises \<open>TypeError\<close>.
\<close>

definition brand_new :: "int \<Rightarrow> JiraTicket \<Rightarrow> bool" where
  "brand_new now ticket \<longleftrightarrow> last_update ticket = 0 \<and> td_seconds (now - created ticket) \<le> 30"

definition synth_create ::
  "pylib \<Rightarrow> int \<Rightarrow> store \<Rightarrow> json \<Rightarrow> JiraTicket \<Rightarrow> error + (store \<times> JiraTicket)" where
  "synth_create lib now UPDATES issue ticket =
     (if brand_new now ticket then
        andthen (store_set UPDATES (key ticket) (timestamp (created ticket))) (\<lambda>UPDATES'.
        andthen (py_getitem issue ''fields'') (\<lambda>fields.
        andthen (make_event_dict lib ticket fields) (\<lambda>r.
        case snd r of
          None \<Rightarrow> Inl TypeError
        | Some base_event \<Rightarrow>
            andthen (py_get (fst r) ''description'' (JStr ''(No description available)''))
              (\<lambda>description.
              Inr (UPDATES',
                   ticket\<lparr>events := events ticket @
                      [ev_set (ev_str (ev_str base_event ''action'' ''create'')
                           ''action_human_text''
                           (''created '' @ py_str (key ticket) @ '': '' @ py_str (summary ticket)))
                         ''description'' (EJson description)],
                     json_data := set_path [''fields''] (fst r) issue\<rparr>)))))
      else Inr (UPDATES, ticket))"

text \<open>The last \<^verbatim>\<open>if\<close> before the events are posted: the write of the watermark.\<close>

definition advance_watermark :: "store \<Rightarrow> JiraTicket \<Rightarrow> error + store" where
  "advance_watermark UPDATES ticket =
     (if events ticket \<noteq> [] then
        andthen (ev_timestamps (events ticket)) (\<lambda>ts.
        andthen (py_max ts) (\<lambda>m. store_set UPDATES (key ticket) m))
      else Inr UPDATES)"

text \<open>
  The body of the loop of \<^verbatim>\<open>process_changes\<close> for one issue, up to the write of the
  watermark: the store and the ticket (its events and its snapshot) as they are then.
\<close>

definition process_issue ::
  "pylib \<Rightarrow> real \<Rightarrow> int \<Rightarrow> Config \<Rightarrow> store \<Rightarrow> json \<Rightarrow> error + (store \<times> JiraTicket)" where
  "process_issue lib LAUNCH_TIME now config UPDATES issue =
     andthen (JiraTicket_init lib LAUNCH_TIME UPDATES config issue) (\<lambda>ticket.
     andthen (synth_create lib now UPDATES issue ticket) (\<lambda>s.
     andthen (parse_changelog lib (snd s)) (\<lambda>t1.
     andthen (parse_comments lib t1) (\<lambda>t2.
     andthen (parse_worklog lib t2) (\<lambda>t3.
     andthen (advance_watermark (fst s) t3) (\<lambda>UPDATES''. Inr (UPDATES'', t3)))))))"

text \<open>What the last loop does with an event: print it in debug mode, post it otherwise.
  A failed post is caught and logged, so it changes nothing.\<close>

datatype emitted = Printed event | Posted string event

fun post_events :: "pylib \<Rightarrow> Config \<Rightarrow> event list \<Rightarrow> error + emitted list" where
  "post_events lib config [] = Inr []"
| "post_events lib config (e # es) =
     andthen (str_format lib (pubsub_url config) e) (\<lambda>target_url.
     andthen (post_events lib config es) (\<lambda>outs.
       Inr ((if debug config then Printed e else Posted target_url e) # outs)))"

text \<open>The loop of \<^verbatim>\<open>process_changes\<close>: the store, the snapshots as the pass leaves them
  and everything printed or posted.\<close>

fun process_loop ::
  "pylib \<Rightarrow> real \<Rightarrow> int \<Rightarrow> Config \<Rightarrow> store \<Rightarrow> json list
     \<Rightarrow> error + (store \<times> json list \<times> emitted list)" where
  "process_loop lib LAUNCH_TIME now config UPDATES [] = Inr (UPDATES, [], [])"
| "process_loop lib LAUNCH_TIME now config UPDATES (issue # rest) =
     andthen (process_issue lib LAUNCH_TIME now config UPDATES issue) (\<lambda>s.
     andthen (post_events lib config (events (snd s))) (\<lambda>outs.
     andthen (process_loop lib LAUNCH_TIME now config (fst s) rest) (\<lambda>r.
       Inr (fst r, json_data (snd s) # fst (snd r), outs @ snd (snd r)))))"

definition process_changes ::
  "pylib \<Rightarrow> real \<Rightarrow> int \<Rightarrow> Config \<Rightarrow> store \<Rightarrow> json
     \<Rightarrow> error + (store \<times> json list \<times> emitted list)" where
  "process_changes lib LAUNCH_TIME now config UPDATES changes =
     andthen (py_iter changes) (process_loop lib LAUNCH_TIME now config UPDATES)"

section \<open>An instance of the library functions\<close>

text \<open>
  The theorems below hold for every \<open>strptime\<close> and \<open>str_format\<close>. The examples need
  one of each. \<open>strptime_fixed\<close> reads the fixed-width form in which Jira writes its
  timestamps, \<^verbatim>\<open>2023-05-02T10:00:05.000+0000\<close>: four-digit year, two-digit month, day,
  hour, minute and second, one to six digits of fraction, a sign and a four-digit offset.
  On such a string it gives the instant Python gives, in microseconds since the epoch, and
  \<open>None\<close> where Python raises \<open>ValueError\<close>; the other forms \<^verbatim>\<open>strptime\<close>
  accepts (one-digit fields, \<^verbatim>\<open>Z\<close>, a colon in the offset) are not used in the examples.
\<close>

definition is_digit :: "char \<Rightarrow> bool" where
  "is_digit c \<longleftrightarrow> 48 \<le> (of_char c :: nat) \<and> (of_char c :: nat) \<le> 57"

definition digits_val :: "string \<Rightarrow> int option" where
  "digits_val s =
     (if s \<noteq> [] \<and> list_all is_digit s
      then Some (fold (\<lambda>c n. 10 * n + (of_char c - 48)) s 0)
      else None)"

definition is_leap :: "int \<Rightarrow> bool" where
  "is_leap y \<longleftrightarrow> (if y mod 100 = 0 then y mod 400 = 0 else y mod 4 = 0)"

definition days_in_month :: "int \<Rightarrow> int \<Rightarrow> int" where
  "days_in_month y m =
     (if m = 2 then (if is_leap y then 29 else 28)
      else if m = 4 \<or> m = 6 \<or> m = 9 \<or> m = 11 then 30 else 31)"

text \<open>Days from 1970-01-01 to the given day of the proleptic Gregorian calendar.\<close>

definition days_from_civil :: "int \<Rightarrow> int \<Rightarrow> int \<Rightarrow> int" where
  "days_from_civil y m d =
     (let y' = (if m \<le> 2 then y - 1 else y);
          era = y' div 400;
          yoe = y' - era * 400;
          doy = (153 * (if m > 2 then m - 3 else m + 9) + 2) div 5 + d - 1;
          doe = yoe * 365 + yoe div 4 - yoe div 100 + doy
      in era * 146097 + doe - 719468)"

definition zone_offset :: "string \<Rightarrow> int option" where
  "zone_offset z =
     (if length z = 5 \<and> (hd z = CHR ''+'' \<or> hd z = CHR ''-'') then
        (case (digits_val (take 2 (tl z)), digits_val (drop 2 (tl z))) of
           (Some h, Some m) \<Rightarrow>
             if h \<le> 23 \<and> m \<le> 59
             then Some ((if hd z = CHR ''-'' then - 1 else 1) * (h * 3600 + m * 60))
             else None
         | _ \<Rightarrow> None)
      else None)"

definition strptime_fixed :: "string \<Rightarrow> int option" where
  "strptime_fixed s =
     (if 20 < length s \<and> s ! 4 = CHR ''-'' \<and> s ! 7 = CHR ''-'' \<and> s ! 10 = CHR ''T''
         \<and> s ! 13 = CHR '':'' \<and> s ! 16 = CHR '':'' \<and> s ! 19 = CHR ''.'' then
        (let frac = takeWhile is_digit (drop 20 s) in
         case (digits_val (take 4 s), digits_val (take 2 (drop 5 s)),
               digits_val (take 2 (drop 8 s)), digits_val (take 2 (drop 11 s)),
               digits_val (take 2 (drop 14 s)), digits_val (take 2 (drop 17 s)),
               digits_val frac, zone_offset (dropWhile is_digit (drop 20 s))) of
           (Some y, Some m, Some d, Some H, Some M, Some S, Some f, Some off) \<Rightarrow>
             if 1 \<le> y \<and> 1 \<le> m \<and> m \<le> 12 \<and> 1 \<le> d \<and> d \<le> days_in_month y m
                \<and> H \<le> 23 \<and> M \<le> 59 \<and> S \<le> 59 \<and> length frac \<le> 6
             then Some ((days_from_civil y m d * 86400 + H * 3600 + M * 60 + S - off) * 1000000
                        + f * 10 ^ (6 - length frac))
             else None
         | _ \<Rightarrow> None)
      else None)"

text \<open>A template without braces has no replacement field and formats to itself; the
  examples use such a target.\<close>

definition format_plain :: "string \<Rightarrow> event \<Rightarrow> error + string" where
  "format_plain url ev =
     (if CHR ''{'' \<in> set url \<or> CHR ''}'' \<in> set url then Inl ValueError else Inr url)"

definition lib0 :: pylib where
  "lib0 = \<lparr>strptime = strptime_fixed, str_format = format_plain\<rparr>"

definition config0 :: Config where
  "config0 = \<lparr>jira_url = ''https://issues.example.org/rest/api/2/search'',
              jira_user = ''bridge'', jira_pass = ''secret'',
              jira_base = ''https://issues.example.org/browse/'',
              pubsub_url = ''http://localhost:2069/jira'',
              debug = False, poll_interval = 5\<rparr>"

subsection \<open>Example snapshots\<close>

text \<open>The process is launched at 2023-05-02 10:00:00 UTC and polls six seconds later.\<close>

definition LAUNCH0 :: real where
  "LAUNCH0 = 1683021600"

definition now0 :: int where
  "now0 = 1683021606000000"

text \<open>An issue created three seconds before the poll, never seen before.\<close>

definition issue_new :: json where
  "issue_new = JObj [(''key'', JStr ''PROJ-7''),
     (''fields'', JObj [(''summary'', JStr ''Login fails''),
                        (''created'', JStr ''2023-05-02T10:00:03.000+0000''),
                        (''description'', JStr ''Steps to reproduce'')])]"

text \<open>An older issue whose resolution changes from Fixed to Duplicate after the launch.\<close>

definition issue_res :: json where
  "issue_res = JObj [(''key'', JStr ''PROJ-1''),
     (''fields'', JObj [(''summary'', JStr ''Crash on start''),
                        (''created'', JStr ''2023-05-01T09:00:00.000+0000'')]),
     (''changelog'', JObj [(''histories'', JArr [
        JObj [(''created'', JStr ''2023-05-02T10:00:05.000+0000''),
              (''author'', JObj [(''displayName'', JStr ''Alice''), (''name'', JStr ''alice'')]),
              (''items'', JArr [JObj [(''field'', JStr ''resolution''),
                                      (''fromString'', JStr ''Fixed''),
                                      (''toString'', JStr ''Duplicate'')]])]])])]"

text \<open>An older issue whose status changes after the launch.\<close>

definition issue_status :: json where
  "issue_status = JObj [(''key'', JStr ''PROJ-2''),
     (''fields'', JObj [(''summary'', JStr ''Slow search''),
                        (''created'', JStr ''2023-04-20T08:30:00.000+0000'')]),
     (''changelog'', JObj [(''histories'', JArr [
        JObj [(''created'', JStr ''2023-05-02T10:00:04.000+0000''),
              (''author'', JObj [(''displayName'', JStr ''Bob''), (''name'', JStr ''bob'')]),
              (''items'', JArr [JObj [(''field'', JStr ''status''),
                                      (''fromString'', JStr ''Open''),
                                      (''toString'', JStr ''In Progress'')]])]])])]"

text \<open>An older issue with a comment that names its creator and no author.\<close>

definition comment_by_creator :: json where
  "comment_by_creator =
     JObj [(''created'', JStr ''2023-05-02T10:00:02.000+0000''),
           (''creator'', JObj [(''displayName'', JStr ''Carol''), (''name'', JStr ''carol'')]),
           (''body'', JStr ''Seen on 2.1 as well'')]"

definition issue_comment :: json where
  "issue_comment = JObj [(''key'', JStr ''PROJ-3''),
     (''fields'', JObj [(''summary'', JStr ''Typo in docs''),
                        (''created'', JStr ''2023-04-28T12:00:00.000+0000''),
                        (''comment'', JObj [(''comments'', JArr [comment_by_creator])])])]"

text \<open>An older issue with three comments added after the launch, not in order of time.\<close>

definition issue_three :: json where
  "issue_three = JObj [(''key'', JStr ''PROJ-4''),
     (''fields'', JObj [(''summary'', JStr ''Flaky test''),
        (''created'', JStr ''2023-04-30T16:45:00.000+0000''),
        (''comment'', JObj [(''comments'', JArr [
           JObj [(''created'', JStr ''2023-05-02T10:00:01.000+0000''),
                 (''author'', JObj [(''displayName'', JStr ''Dan''), (''name'', JStr ''dan'')]),
                 (''body'', JStr ''first'')],
           JObj [(''created'', JStr ''2023-05-02T10:00:05.000+0000''),
                 (''author'', JObj [(''displayName'', JStr ''Eve''), (''name'', JStr ''eve'')]),
                 (''body'', JStr ''second'')],
           JObj [(''created'', JStr ''2023-05-02T10:00:03.000+0000''),
                 (''author'', JObj [(''displayName'', JStr ''Dan''), (''name'', JStr ''dan'')]),
                 (''body'', JStr ''third'')]])])])]"

text \<open>A snapshot without \<open>fields\<close>.\<close>

definition issue_no_fields :: json where
  "issue_no_fields = JObj [(''key'', JStr ''PROJ-9'')]"

text \<open>An older issue, never seen before, with a comment made ten seconds before the launch
  and a comment made four seconds after it.\<close>

definition issue_replay :: json where
  "issue_replay = JObj [(''key'', JStr ''PROJ-5''),
     (''fields'', JObj [(''summary'', JStr ''Wrong total''),
        (''created'', JStr ''2023-04-25T11:15:00.000+0000''),
        (''comment'', JObj [(''comments'', JArr [
           JObj [(''created'', JStr ''2023-05-02T09:59:50.000+0000''),
                 (''author'', JObj [(''displayName'', JStr ''Dan''), (''name'', JStr ''dan'')]),
                 (''body'', JStr ''before the launch'')],
           JObj [(''created'', JStr ''2023-05-02T10:00:04.000+0000''),
                 (''author'', JObj [(''displayName'', JStr ''Eve''), (''name'', JStr ''eve'')]),
                 (''body'', JStr ''after the launch'')]])])])]"

text \<open>An older issue whose fields name a creator and no author, with a comment made before
  the launch that names a creator and no author, and a status change made after the launch
  that names its author.\<close>

definition issue_quiet :: json where
  "issue_quiet = JObj [(''key'', JStr ''PROJ-6''),
     (''fields'', JObj [(''summary'', JStr ''Broken link''),
        (''created'', JStr ''2023-04-27T14:00:00.000+0000''),
        (''creator'', JObj [(''displayName'', JStr ''Frank''), (''name'', JStr ''frank'')]),
        (''comment'', JObj [(''comments'', JArr [
           JObj [(''created'', JStr ''2023-05-02T09:59:50.000+0000''),
                 (''creator'', JObj [(''displayName'', JStr ''Carol''), (''name'', JStr ''carol'')]),
                 (''body'', JStr ''Which page?'')]])])]),
     (''changelog'', JObj [(''histories'', JArr [
        JObj [(''created'', JStr ''2023-05-02T10:00:04.000+0000''),
              (''author'', JObj [(''displayName'', JStr ''Bob''), (''name'', JStr ''bob'')]),
              (''items'', JArr [JObj [(''field'', JStr ''status''),
                                      (''fromString'', JStr ''Open''),
                                      (''toString'', JStr ''In Progress'')]])]])])]"

section \<open>Predicates of the statements\<close>

text \<open>A store in which every watermark is positive.\<close>

definition positive_store :: "store \<Rightarrow> bool" where
  "positive_store UPDATES \<longleftrightarrow> (\<forall>k v. UPDATES k = Some v \<longrightarrow> 0 < v)"

text \<open>The watermark of an identifier, as \<^verbatim>\<open>UPDATES.get(key, LAUNCH_TIME)\<close> reads it.\<close>

definition watermark :: "real \<Rightarrow> store \<Rightarrow> json \<Rightarrow> real" where
  "watermark LAUNCH_TIME UPDATES h = (case UPDATES h of None \<Rightarrow> LAUNCH_TIME | Some v \<Rightarrow> v)"

text \<open>
  The stores the program can reach: \<^verbatim>\<open>UPDATES\<close> starts empty, and the only code that
  writes it is the body of the loop of \<^verbatim>\<open>process_changes\<close>.
\<close>

inductive reachable :: "pylib \<Rightarrow> real \<Rightarrow> Config \<Rightarrow> store \<Rightarrow> bool"
  for lib :: pylib and LAUNCH_TIME :: real and config :: Config where
  start: "reachable lib LAUNCH_TIME config Map.empty"
| step: "reachable lib LAUNCH_TIME config UPDATES \<Longrightarrow>
         process_issue lib LAUNCH_TIME now config UPDATES issue = Inr (UPDATES', t) \<Longrightarrow>
         reachable lib LAUNCH_TIME config UPDATES'"

text \<open>Events stamped strictly above the watermark of the ticket.\<close>

definition fresh :: "JiraTicket \<Rightarrow> event list \<Rightarrow> bool" where
  "fresh t es \<longleftrightarrow>
     (\<forall>e \<in> set es. \<exists>r. map_of e ''timestamp'' = Some (EFloat r) \<and> last_update t < r)"

text \<open>
  A dictionary entry from which \<^verbatim>\<open>make_event_dict\<close> can build the base event: the
  ticket's key is a string, the creation time parses, and the author (the creator, when
  there is no author) is a dictionary.
\<close>

definition well_formed_entry :: "pylib \<Rightarrow> JiraTicket \<Rightarrow> (string \<times> json) list \<Rightarrow> bool" where
  "well_formed_entry lib t kvs \<longleftrightarrow>
     (case key t of JStr s \<Rightarrow> True | _ \<Rightarrow> False) \<and>
     (case map_of kvs ''created'' of Some (JStr s) \<Rightarrow> strptime lib s \<noteq> None | _ \<Rightarrow> False) \<and>
     (case map_of kvs ''author'' of
        Some a \<Rightarrow> is_dict a
      | None \<Rightarrow> (case map_of kvs ''creator'' of Some c \<Rightarrow> is_dict c | None \<Rightarrow> True))"

text \<open>
  An entry that \<^verbatim>\<open>make_event_dict\<close> writes to: a dictionary with a creation time, an
  effective time above the watermark of the ticket, a creator and no author. The method
  returns before the assignment for every other entry it is given.
\<close>

definition writes_author :: "pylib \<Rightarrow> JiraTicket \<Rightarrow> json \<Rightarrow> bool" where
  "writes_author lib t entry \<longleftrightarrow>
     (case entry of
        JObj kvs \<Rightarrow>
          map_of kvs ''created'' \<noteq> None \<and>
          (case change_epoch lib entry of Inr r \<Rightarrow> last_update t < r | Inl e \<Rightarrow> False) \<and>
          map_of kvs ''author'' = None \<and> map_of kvs ''creator'' \<noteq> None
      | _ \<Rightarrow> False)"

text \<open>A list of entries, as one of the three methods reads it, with an entry that is
  written to.\<close>

definition list_writes :: "pylib \<Rightarrow> JiraTicket \<Rightarrow> error + json \<Rightarrow> bool" where
  "list_writes lib t elements \<longleftrightarrow>
     (case elements of Inr (JArr xs) \<Rightarrow> list_ex (writes_author lib t) xs | _ \<Rightarrow> False)"

text \<open>
  A snapshot with an entry that a pass writes to. The entries a pass hands to
  \<^verbatim>\<open>make_event_dict\<close> are the elements of the history, comment and worklog lists and,
  inside the create block only, the fields of the issue.
\<close>

definition pass_writes :: "pylib \<Rightarrow> int \<Rightarrow> JiraTicket \<Rightarrow> json \<Rightarrow> bool" where
  "pass_writes lib now ticket issue \<longleftrightarrow>
     (brand_new now ticket \<and>
        (case py_getitem issue ''fields'' of
           Inr fs \<Rightarrow> writes_author lib ticket fs
         | Inl e \<Rightarrow> False)) \<or>
     list_writes lib ticket (changelog_elements issue) \<or>
     list_writes lib ticket (comment_elements issue) \<or>
     list_writes lib ticket (worklog_elements issue)"

text \<open>Whether the fields of a snapshot hold an author.\<close>

definition fields_author :: "json \<Rightarrow> error + bool" where
  "fields_author data = andthen (py_getitem data ''fields'') (py_contains ''author'')"

text \<open>A snapshot without \<open>key\<close>, without \<open>fields\<close>, without a creation time in its fields,
  or with a creation time that \<open>strptime\<close> rejects.\<close>

definition malformed_snapshot :: "pylib \<Rightarrow> json \<Rightarrow> bool" where
  "malformed_snapshot lib issue \<longleftrightarrow>
     (case issue of
        JObj kvs \<Rightarrow>
          map_of kvs ''key'' = None \<or>
          (case map_of kvs ''fields'' of
             None \<Rightarrow> True
           | Some (JObj fs) \<Rightarrow>
               (case map_of fs ''created'' of
                  None \<Rightarrow> True
                | Some (JStr s) \<Rightarrow> strptime lib s = None
                | Some _ \<Rightarrow> False)
           | Some _ \<Rightarrow> False)
      | _ \<Rightarrow> False)"

text \<open>The ticket of \<open>issue_comment\<close>, as \<^verbatim>\<open>JiraTicket.__init__\<close> builds it while the
  store is empty.\<close>

definition ticket_comment :: JiraTicket where
  "ticket_comment =
     \<lparr>key = JStr ''PROJ-3'', link = ''https://issues.example.org/browse/PROJ-3'',
      summary = JStr ''Typo in docs'', created = 1682683200000000, last_update = 1683021600,
      events = [], json_data = issue_comment\<rparr>"

section \<open>Basic facts\<close>

lemma andthen_Inl [simp]: "andthen (Inl e) f = Inl e"
  by (simp add: andthen_def)

lemma andthen_Inr [simp]: "andthen (Inr x) f = f x"
  by (simp add: andthen_def)

lemma andthen_eq_Inr: "andthen m f = Inr y \<longleftrightarrow> (\<exists>x. m = Inr x \<and> f x = Inr y)"
  by (cases m) simp_all

text \<open>The definitions that evaluating a processing pass on a concrete snapshot unfolds.\<close>

lemmas eval_defs =
  process_changes_def process_issue_def JiraTicket_init_def synth_create_def brand_new_def
  changelog_elements_def comment_elements_def worklog_elements_def
  parse_changelog_def parse_comments_def parse_worklog_def advance_watermark_def
  make_event_dict_def change_epoch_def rewrite_author_def author_of_def
  classify_change_def classify_item_def classify_comment_def
  classify_worklog_def write_back_def store_get_def store_set_def ev_timestamp_def ev_set_def
  ev_str_def link_key_def timestamp_def td_seconds_def lib0_def config0_def LAUNCH0_def now0_def
  strptime_fixed_def digits_val_def is_digit_def zone_offset_def days_from_civil_def
  days_in_month_def is_leap_def format_plain_def scan_entries.simps

section \<open>Fetching\<close>

text \<open>
  C6. \<^verbatim>\<open>fetch_changes\<close> is to return a sequence whatever the fetch does, an empty one on
  a failure. When Jira answers with JSON that is not a dictionary (here the list \<^verbatim>\<open>[]\<close>),
  the assertion fails, its handler returns nothing, and the caller gets \<^verbatim>\<open>None\<close>:
  \<^verbatim>\<open>process_changes\<close> then raises \<open>TypeError\<close> on its \<^verbatim>\<open>for\<close> loop. The handler of
  \<open>RequestException\<close> next to it does return the empty list.
\<close>

theorem fetch_non_dict_aborts_poll:
  "fetch_changes (Body (JArr [])) = JNull \<and>
   process_changes lib LAUNCH_TIME now config UPDATES (fetch_changes (Body (JArr []))) = Inl TypeError"
  by (simp add: process_changes_def)

lemma fetch_transport_failure: "fetch_changes RequestException = JArr []"
  by simp

section \<open>The sentences of the events\<close>

text \<open>
  C9. A \<open>resolution\<close> event is to carry a sentence that names the old and the new
  resolution. For the change from Fixed to Duplicate of \<open>issue_res\<close> the sentence the pass
  produces stops after \<^verbatim>\<open>from \<close> and names neither.
\<close>

theorem resolution_sentence_cut_short:
  "map_sum id (map (\<lambda>e. map_of e ''action_human_text'') \<circ> events \<circ> snd)
     (process_issue lib0 LAUNCH0 now0 config0 Map.empty issue_res)
   = Inr [Some (EJson (JStr
       ''changed the resolution of <https://issues.example.org/browse/PROJ-1|PROJ-1> from ''))]"
  by (simp add: issue_res_def eval_defs)

section \<open>The create path\<close>

text \<open>
  C1. An issue never observed before and created within thirty seconds of the poll is to
  get a \<open>create\<close> event, and its watermark is to be seeded. \<open>issue_new\<close> is such an issue
  (created three seconds before \<open>now0\<close>, the store empty): the pass produces no event and
  leaves the store without an entry for it. The test of the create path compares the
  watermark with \<open>0\<close>, and the watermark of an issue never observed is \<open>LAUNCH_TIME\<close>.
\<close>

theorem new_issue_no_create_event:
  "map_sum id (\<lambda>s. (fst s (JStr ''PROJ-7''), events (snd s)))
     (process_issue lib0 LAUNCH0 now0 config0 Map.empty issue_new) = Inr (None, [])"
  by (simp add: issue_new_def eval_defs)

section \<open>Making the base event\<close>

lemma contains_obj [simp]: "py_contains k (JObj kvs) = Inr (map_of kvs k \<noteq> None)"
  using map_of_eq_None_iff[of kvs k] by auto

declare py_contains.simps(1) [simp del]

text \<open>The effective time is the update time when there is one, the creation time otherwise.\<close>

lemma change_epoch_obj:
  "change_epoch lib (JObj kvs) = Inr r \<longleftrightarrow>
     (\<exists>c s d. map_of kvs ''created'' = Some c
        \<and> (case map_of kvs ''updated'' of None \<Rightarrow> c | Some u \<Rightarrow> u) = JStr s
        \<and> strptime lib s = Some d \<and> r = timestamp d)"
proof -
  have j: "jira_to_datetime lib u = Inr d \<longleftrightarrow> (\<exists>s. u = JStr s \<and> strptime lib s = Some d)" for u d
    by (cases u) (auto split: option.splits)
  show ?thesis
    by (cases "map_of kvs ''created''"; cases "map_of kvs ''updated''")
       (auto simp: change_epoch_def andthen_eq_Inr j)
qed

lemma make_event_dict_no_created:
  "map_of kvs ''created'' = None \<Longrightarrow> make_event_dict lib t (JObj kvs) = Inr (JObj kvs, None)"
  by (simp add: make_event_dict_def)

lemma make_event_dict_old:
  assumes "change_epoch lib (JObj kvs) = Inr r" and "r \<le> last_update t"
  shows "make_event_dict lib t (JObj kvs) = Inr (JObj kvs, None)"
proof -
  from assms(1) have "map_of kvs ''created'' \<noteq> None"
    by (auto simp: change_epoch_obj)
  with assms show ?thesis
    by (simp add: make_event_dict_def)
qed

text \<open>What a base event holds, when one is made.\<close>

lemma make_event_dict_Some:
  assumes "make_event_dict lib t entry = Inr (e', Some ev)"
  shows "\<exists>r. change_epoch lib entry = Inr r \<and> last_update t < r
           \<and> rewrite_author entry = Inr e'
           \<and> map_of ev ''timestamp'' = Some (EFloat r)
           \<and> map_of ev ''action_human_text'' = None"
  using assms
  by (auto simp: make_event_dict_def andthen_eq_Inr split: if_splits)

lemma make_event_dict_None:
  assumes "make_event_dict lib t entry = Inr (e', None)"
  shows "e' = entry \<and> (py_contains ''created'' entry = Inr False
           \<or> (\<exists>r. change_epoch lib entry = Inr r \<and> r \<le> last_update t))"
  using assms
  by (auto simp: make_event_dict_def andthen_eq_Inr split: if_splits)

lemma rewrite_author_obj:
  "rewrite_author (JObj kvs) =
     Inr (case map_of kvs ''author'' of
            Some a \<Rightarrow> JObj kvs
          | None \<Rightarrow> (case map_of kvs ''creator'' of
                       None \<Rightarrow> JObj kvs
                     | Some c \<Rightarrow> JObj (AList.update ''author'' c kvs)))"
  by (auto simp: rewrite_author_def split: option.splits)

lemma author_of_obj:
  "author_of (JObj kvs) =
     (case map_of kvs ''author'' of
        None \<Rightarrow> Inr (JStr ''??'', JStr ''??'')
      | Some a \<Rightarrow> andthen (py_get a ''displayName'' (JStr ''??'')) (\<lambda>n.
                  andthen (py_get a ''name'' (JStr ''??'')) (\<lambda>u. Inr (n, u))))"
  by (auto simp: author_of_def split: option.splits)

lemma py_get_dict: "is_dict a \<Longrightarrow> \<exists>v. py_get a k d = Inr v"
  by (cases a) (auto split: option.splits)

lemma make_event_dict_new:
  assumes ce: "change_epoch lib (JObj kvs) = Inr r" and new: "last_update t < r"
    and wf: "well_formed_entry lib t kvs"
  shows "\<exists>e' ev. make_event_dict lib t (JObj kvs) = Inr (e', Some ev)"
proof -
  from wf obtain ks where k: "key t = JStr ks"
    by (auto simp: well_formed_entry_def split: json.splits)
  from wf obtain cs d' where c: "map_of kvs ''created'' = Some (JStr cs)" "strptime lib cs = Some d'"
    by (auto simp: well_formed_entry_def split: option.splits json.splits)
  obtain e' where e': "rewrite_author (JObj kvs) = Inr e'"
    by (simp add: rewrite_author_obj)
  obtain kvs' where kvs': "e' = JObj kvs'" "map_of kvs' ''created'' = Some (JStr cs)"
    and au: "map_of kvs' ''author'' = None \<or> (\<exists>a. map_of kvs' ''author'' = Some a \<and> is_dict a)"
    using e' c wf
    by (auto simp: rewrite_author_obj well_formed_entry_def update_conv' split: option.splits)
  have "\<exists>n u. author_of e' = Inr (n, u)"
    using au
  proof
    assume "map_of kvs' ''author'' = None"
    then show ?thesis by (simp add: kvs' author_of_obj)
  next
    assume "\<exists>a. map_of kvs' ''author'' = Some a \<and> is_dict a"
    then obtain a where a: "map_of kvs' ''author'' = Some a" "is_dict a" by blast
    from py_get_dict[OF a(2)] obtain n where n: "py_get a ''displayName'' (JStr ''??'') = Inr n"
      by blast
    from py_get_dict[OF a(2)] obtain u where u: "py_get a ''name'' (JStr ''??'') = Inr u"
      by blast
    show ?thesis using a n u by (simp add: kvs' author_of_obj)
  qed
  then obtain n u where a: "author_of e' = Inr (n, u)" by blast
  show ?thesis
    using ce new e' a k c kvs'
    by (simp add: make_event_dict_def)
qed

text \<open>
  C4. A sub-record (history entry, comment or worklog entry) without a creation time yields
  no candidate. Otherwise its effective time is its update time when there is one and its
  creation time when not, and it yields a candidate exactly when that time is strictly
  greater than the watermark of the ticket: at or below the watermark there is none; above
  it there is one, stamped with the effective time, when the entry is well formed (the
  method raises when it is not); and whenever there is one, the effective time is above
  the watermark.
\<close>

theorem sub_record_qualification:
  "(map_of kvs ''created'' = None \<longrightarrow> make_event_dict lib t (JObj kvs) = Inr (JObj kvs, None)) \<and>
   (\<forall>c. map_of kvs ''created'' = Some c \<longrightarrow>
      (\<forall>r. change_epoch lib (JObj kvs) = Inr r \<longleftrightarrow>
           (\<exists>s d. (case map_of kvs ''updated'' of None \<Rightarrow> c | Some u \<Rightarrow> u) = JStr s
                  \<and> strptime lib s = Some d \<and> r = timestamp d))) \<and>
   (\<forall>r. change_epoch lib (JObj kvs) = Inr r \<longrightarrow>
      (r \<le> last_update t \<longrightarrow> make_event_dict lib t (JObj kvs) = Inr (JObj kvs, None)) \<and>
      (last_update t < r \<and> well_formed_entry lib t kvs \<longrightarrow>
         (\<exists>e' ev. make_event_dict lib t (JObj kvs) = Inr (e', Some ev)
                   \<and> map_of ev ''timestamp'' = Some (EFloat r))) \<and>
      (\<forall>e' ev. make_event_dict lib t (JObj kvs) = Inr (e', Some ev) \<longrightarrow>
         last_update t < r \<and> map_of ev ''timestamp'' = Some (EFloat r)))"
proof (intro conjI allI impI)
  assume "map_of kvs ''created'' = None"
  then show "make_event_dict lib t (JObj kvs) = Inr (JObj kvs, None)"
    by (rule make_event_dict_no_created)
next
  fix c r assume "map_of kvs ''created'' = Some c"
  then show "change_epoch lib (JObj kvs) = Inr r \<longleftrightarrow>
           (\<exists>s d. (case map_of kvs ''updated'' of None \<Rightarrow> c | Some u \<Rightarrow> u) = JStr s
                  \<and> strptime lib s = Some d \<and> r = timestamp d)"
    by (simp add: change_epoch_obj)
next
  fix r assume "change_epoch lib (JObj kvs) = Inr r" "r \<le> last_update t"
  then show "make_event_dict lib t (JObj kvs) = Inr (JObj kvs, None)"
    by (rule make_event_dict_old)
next
  fix r assume ce: "change_epoch lib (JObj kvs) = Inr r"
    and "last_update t < r \<and> well_formed_entry lib t kvs"
  then obtain e' ev where m: "make_event_dict lib t (JObj kvs) = Inr (e', Some ev)"
    using make_event_dict_new by blast
  with ce show "\<exists>e' ev. make_event_dict lib t (JObj kvs) = Inr (e', Some ev)
                   \<and> map_of ev ''timestamp'' = Some (EFloat r)"
    using make_event_dict_Some[OF m] by auto
next
  fix r e' ev assume ce: "change_epoch lib (JObj kvs) = Inr r"
    and m: "make_event_dict lib t (JObj kvs) = Inr (e', Some ev)"
  from make_event_dict_Some[OF m] ce show "last_update t < r" by auto
next
  fix r e' ev assume ce: "change_epoch lib (JObj kvs) = Inr r"
    and m: "make_event_dict lib t (JObj kvs) = Inr (e', Some ev)"
  from make_event_dict_Some[OF m] ce show "map_of ev ''timestamp'' = Some (EFloat r)" by auto
qed

theorem sub_record_qualification_witness:
  "change_epoch lib0 comment_by_creator = Inr 1683021602 \<and>
   last_update ticket_comment < 1683021602 \<and>
   (\<exists>e' ev. make_event_dict lib0 ticket_comment comment_by_creator = Inr (e', Some ev)
      \<and> map_of ev ''timestamp'' = Some (EFloat 1683021602))"
proof -
  let ?kvs = "[(''created'', JStr ''2023-05-02T10:00:02.000+0000''),
               (''creator'', JObj [(''displayName'', JStr ''Carol''), (''name'', JStr ''carol'')]),
               (''body'', JStr ''Seen on 2.1 as well'')]"
  have ce: "change_epoch lib0 (JObj ?kvs) = Inr 1683021602"
    by (simp add: eval_defs)
  have new: "last_update ticket_comment < 1683021602"
    by (simp add: ticket_comment_def)
  have wf: "well_formed_entry lib0 ticket_comment ?kvs"
    by (simp add: well_formed_entry_def ticket_comment_def eval_defs)
  from sub_record_qualification[of ?kvs lib0 ticket_comment] ce new wf
  have "\<exists>e' ev. make_event_dict lib0 ticket_comment (JObj ?kvs) = Inr (e', Some ev)
      \<and> map_of ev ''timestamp'' = Some (EFloat 1683021602)"
    by blast
  with ce new show ?thesis
    by (simp only: comment_by_creator_def)
qed

section \<open>Classifying history items\<close>

lemma map_of_ev_set [simp]:
  "map_of (ev_set ev k v) k' = (if k' = k then Some v else map_of ev k')"
  by (simp add: ev_set_def update_conv')

lemma map_of_ev_str [simp]:
  "map_of (ev_str ev k s) k' = (if k' = k then Some (EJson (JStr s)) else map_of ev k')"
  by (simp add: ev_str_def)

lemma JiraTicket_init_Inr:
  assumes "JiraTicket_init lib LAUNCH_TIME UPDATES config issue = Inr t"
  shows "\<exists>h. hash_key (key t) = Inr h \<and> last_update t = watermark LAUNCH_TIME UPDATES h
           \<and> py_getitem issue ''key'' = Inr (key t)
           \<and> events t = [] \<and> json_data t = issue"
  using assms
  by (auto simp: JiraTicket_init_def andthen_eq_Inr store_get_def watermark_def)

lemma watermark_positive:
  "0 < LAUNCH_TIME \<Longrightarrow> positive_store UPDATES \<Longrightarrow> 0 < watermark LAUNCH_TIME UPDATES h"
  by (auto simp: watermark_def positive_store_def split: option.splits)

lemma init_last_update_positive:
  assumes "0 < LAUNCH_TIME" and "positive_store UPDATES"
    and "JiraTicket_init lib LAUNCH_TIME UPDATES config issue = Inr t"
  shows "0 < last_update t"
  using JiraTicket_init_Inr[OF assms(3)] watermark_positive[OF assms(1,2)] by auto

text \<open>
  C8. A resolution item of a qualifying history entry yields exactly one event: a \<open>close\<close>
  event carrying the new resolution when the previous value is empty, a \<open>resolution\<close>
  event carrying the previous and the new value when it is present. The ticket is any
  ticket the program builds: the launch time is positive and so is every stored watermark,
  which makes the watermark of the ticket positive.
\<close>

theorem resolution_item_one_event:
  assumes "0 < LAUNCH_TIME" and "positive_store UPDATES"
    and "JiraTicket_init lib LAUNCH_TIME UPDATES config issue = Inr t"
    and "py_get item ''field'' JNull = Inr (JStr ''resolution'')"
    and "py_get item ''fromString'' JNull = Inr old"
    and "py_get item ''toString'' (JStr ''Unresolved'') = Inr new"
  shows "\<exists>e. classify_item t base_event item = Inr [e] \<and>
           (if truthy old
            then map_of e ''action'' = Some (EJson (JStr ''resolution''))
                 \<and> map_of e ''from'' = Some (EJson old) \<and> map_of e ''to'' = Some (EJson new)
            else map_of e ''action'' = Some (EJson (JStr ''close''))
                 \<and> map_of e ''resolution'' = Some (EJson new))"
proof -
  have pos: "0 < last_update t"
    using assms(1-3) by (rule init_last_update_positive)
  show ?thesis
    using pos assms(4-6) by (simp add: classify_item_def)
qed

theorem resolution_item_one_event_witness:
  "0 < LAUNCH0 \<and> positive_store Map.empty \<and>
   (\<exists>t. JiraTicket_init lib0 LAUNCH0 Map.empty config0 issue_res = Inr t \<and>
      (\<exists>e. classify_item t []
              (JObj [(''field'', JStr ''resolution''), (''fromString'', JStr ''Fixed''),
                     (''toString'', JStr ''Duplicate'')]) = Inr [e]
         \<and> map_of e ''action'' = Some (EJson (JStr ''resolution''))
         \<and> map_of e ''from'' = Some (EJson (JStr ''Fixed''))
         \<and> map_of e ''to'' = Some (EJson (JStr ''Duplicate''))))"
proof -
  let ?item = "JObj [(''field'', JStr ''resolution''), (''fromString'', JStr ''Fixed''),
                     (''toString'', JStr ''Duplicate'')]"
  have l: "0 < LAUNCH0" by (simp add: LAUNCH0_def)
  have p: "positive_store Map.empty" by (simp add: positive_store_def)
  obtain t where t: "JiraTicket_init lib0 LAUNCH0 Map.empty config0 issue_res = Inr t"
    by (simp add: issue_res_def eval_defs)
  have f: "py_get ?item ''field'' JNull = Inr (JStr ''resolution'')" by simp
  have o: "py_get ?item ''fromString'' JNull = Inr (JStr ''Fixed'')" by simp
  have n: "py_get ?item ''toString'' (JStr ''Unresolved'') = Inr (JStr ''Duplicate'')" by simp
  from resolution_item_one_event[OF l p t f o n, of "[]"]
  have "\<exists>e. classify_item t [] ?item = Inr [e]
         \<and> map_of e ''action'' = Some (EJson (JStr ''resolution''))
         \<and> map_of e ''from'' = Some (EJson (JStr ''Fixed''))
         \<and> map_of e ''to'' = Some (EJson (JStr ''Duplicate''))"
    by simp
  with l p t show ?thesis by blast
qed

section \<open>The events of a pass\<close>

text \<open>A classifier keeps the time stamp of the base event on every event it makes, and
  makes none while the watermark of the ticket is not positive.\<close>

lemma classify_item_events:
  assumes "classify_item t base item = Inr es"
  shows "(\<forall>e \<in> set es. map_of e ''timestamp'' = map_of base ''timestamp'') \<and>
         (\<not> 0 < last_update t \<longrightarrow> es = [])"
proof -
  from assms obtain field where f: "py_get item ''field'' JNull = Inr field"
    by (auto simp: classify_item_def andthen_eq_Inr)
  consider "field = JStr ''resolution''" | "field = JStr ''status''" | "field = JStr ''summary''"
    | "field = JStr ''description''" | "field = JStr ''assignee''"
    | "field \<noteq> JStr ''resolution''" "field \<noteq> JStr ''status''" "field \<noteq> JStr ''summary''"
      "field \<noteq> JStr ''description''" "field \<noteq> JStr ''assignee''"
    by blast
  then show ?thesis
  proof cases
    case 1
    with assms f show ?thesis
      by (auto simp: classify_item_def andthen_eq_Inr split: if_splits)
  next
    case 2
    with assms f show ?thesis
      by (auto simp: classify_item_def andthen_eq_Inr split: if_splits)
  next
    case 3
    with assms f show ?thesis
      by (auto simp: classify_item_def andthen_eq_Inr split: if_splits)
  next
    case 4
    with assms f show ?thesis
      by (auto simp: classify_item_def andthen_eq_Inr split: if_splits)
  next
    case 5
    with assms f show ?thesis
      by (auto simp: classify_item_def andthen_eq_Inr split: if_splits)
  next
    case 6
    with assms f show ?thesis
      by (auto simp: classify_item_def andthen_eq_Inr)
  qed
qed

lemma history_items_events:
  assumes "history_items t base items = Inr es"
  shows "(\<forall>e \<in> set es. map_of e ''timestamp'' = map_of base ''timestamp'') \<and>
         (\<not> 0 < last_update t \<longrightarrow> es = [])"
  using assms
proof (induction items arbitrary: es)
  case Nil
  then show ?case by simp
next
  case (Cons item items)
  from Cons.prems obtain es1 es2 where
    c: "classify_item t base item = Inr es1" and h: "history_items t base items = Inr es2"
    and es: "es = es1 @ es2"
    by (auto simp: andthen_eq_Inr)
  from classify_item_events[OF c] Cons.IH[OF h] es show ?case by auto
qed

lemma classify_change_events:
  assumes "classify_change t base change = Inr es"
  shows "(\<forall>e \<in> set es. map_of e ''timestamp'' = map_of base ''timestamp'') \<and>
         (\<not> 0 < last_update t \<longrightarrow> es = [])"
proof -
  from assms obtain items where "history_items t base items = Inr es"
    by (auto simp: classify_change_def andthen_eq_Inr)
  then show ?thesis by (rule history_items_events)
qed

lemma classify_comment_events:
  assumes "classify_comment t base comment = Inr es"
  shows "(\<forall>e \<in> set es. map_of e ''timestamp'' = map_of base ''timestamp'') \<and>
         (\<not> 0 < last_update t \<longrightarrow> es = [])"
  using assms
  by (auto simp: classify_comment_def andthen_eq_Inr split: if_splits)

lemma classify_worklog_events:
  assumes "classify_worklog t base worklog = Inr es"
  shows "(\<forall>e \<in> set es. map_of e ''timestamp'' = map_of base ''timestamp'') \<and>
         (\<not> 0 < last_update t \<longrightarrow> es = [])"
  using assms
  by (auto simp: classify_worklog_def andthen_eq_Inr split: if_splits)

lemma scan_entries_Cons:
  "scan_entries lib t classify (x # xs) = Inr (xs', es) \<longleftrightarrow>
     (\<exists>x' b es1 ys es2. make_event_dict lib t x = Inr (x', b)
        \<and> (case b of None \<Rightarrow> Inr [] | Some base \<Rightarrow> classify base x') = Inr es1
        \<and> scan_entries lib t classify xs = Inr (ys, es2)
        \<and> xs' = x' # ys \<and> es = es1 @ es2)"
proof (cases "make_event_dict lib t x")
  case (Inl e)
  then show ?thesis by simp
next
  case (Inr r)
  obtain x' b where r: "r = (x', b)" by (cases r)
  show ?thesis by (cases b) (auto simp: Inr r andthen_eq_Inr)
qed

declare scan_entries.simps(2) [simp del]

text \<open>The outer loop: every event is stamped above the watermark, and there is none while
  the watermark is not positive.\<close>

lemma scan_entries_events:
  assumes "scan_entries lib t classify xs = Inr (xs', es)"
    and cl: "\<And>base x es. classify base x = Inr es \<Longrightarrow>
               (\<forall>e \<in> set es. map_of e ''timestamp'' = map_of base ''timestamp'') \<and>
               (\<not> 0 < last_update t \<longrightarrow> es = [])"
  shows "(\<forall>e \<in> set es. \<exists>r. map_of e ''timestamp'' = Some (EFloat r) \<and> last_update t < r) \<and>
         (\<not> 0 < last_update t \<longrightarrow> es = [])"
  using assms(1)
proof (induction xs arbitrary: xs' es)
  case Nil
  then show ?case by simp
next
  case (Cons x xs)
  from Cons.prems obtain x' b es1 ys es2 where
    m: "make_event_dict lib t x = Inr (x', b)"
    and c: "(case b of None \<Rightarrow> Inr [] | Some base \<Rightarrow> classify base x') = Inr es1"
    and s: "scan_entries lib t classify xs = Inr (ys, es2)"
    and es: "es = es1 @ es2"
    by (auto simp: scan_entries_Cons)
  have "(\<forall>e \<in> set es1. \<exists>r. map_of e ''timestamp'' = Some (EFloat r) \<and> last_update t < r) \<and>
         (\<not> 0 < last_update t \<longrightarrow> es1 = [])"
  proof (cases b)
    case None
    with c show ?thesis by simp
  next
    case (Some base)
    with c have c': "classify base x' = Inr es1" by simp
    from m Some make_event_dict_Some obtain r where
      "map_of base ''timestamp'' = Some (EFloat r)" "last_update t < r"
      by blast
    with cl[OF c'] show ?thesis by auto
  qed
  with Cons.IH[OF s] es show ?case by auto
qed

section \<open>The three methods and the write of the watermark\<close>

lemma set_path_absent: "map_of kvs k = None \<Longrightarrow> set_path (k # ks) v (JObj kvs) = JObj kvs"
  by simp

lemma set_path_same:
  "map_of kvs k = Some c \<Longrightarrow> set_path ks v c = c \<Longrightarrow> set_path (k # ks) v (JObj kvs) = JObj kvs"
  by (simp add: update_triv)

lemma py_get_Inr:
  "py_get j k d = Inr v \<longleftrightarrow> (\<exists>kvs. j = JObj kvs \<and> v = (case map_of kvs k of None \<Rightarrow> d | Some x \<Rightarrow> x))"
  by (cases j) (auto split: option.splits)

lemma py_getitem_Inr:
  "py_getitem j k = Inr v \<longleftrightarrow> (\<exists>kvs. j = JObj kvs \<and> map_of kvs k = Some v)"
  by (cases j) (auto split: option.splits)

lemma set_path_key:
  assumes "py_get c k d = Inr (JArr xs)"
  shows "set_path [k] (JArr xs) c = c"
  using assms by (auto simp: py_get_Inr update_triv split: option.splits)

lemma changelog_same:
  assumes "changelog_elements data = Inr (JArr xs)"
  shows "set_path [''changelog'', ''histories''] (JArr xs) data = data"
proof -
  from assms obtain kvs c where d: "data = JObj kvs"
    and c: "c = (case map_of kvs ''changelog'' of None \<Rightarrow> JObj [] | Some x \<Rightarrow> x)"
    and h: "py_get c ''histories'' (JArr []) = Inr (JArr xs)"
    by (auto simp: changelog_elements_def andthen_eq_Inr py_get_Inr)
  show ?thesis
  proof (cases "map_of kvs ''changelog''")
    case None
    then show ?thesis by (simp add: d)
  next
    case (Some x)
    with c h have "set_path [''histories''] (JArr xs) x = x"
      by (simp add: set_path_key)
    with Some show ?thesis unfolding d by (rule set_path_same)
  qed
qed

lemma fields_list_same:
  assumes "py_getitem data ''fields'' = Inr fs"
    and "py_get fs k1 (JObj []) = Inr c"
    and "py_get c k2 (JArr []) = Inr (JArr xs)"
  shows "set_path [''fields'', k1, k2] (JArr xs) data = data"
proof -
  from assms(1) obtain kvs where d: "data = JObj kvs" and f: "map_of kvs ''fields'' = Some fs"
    by (auto simp: py_getitem_Inr)
  from assms(2) obtain fkvs where fs: "fs = JObj fkvs"
    and c: "c = (case map_of fkvs k1 of None \<Rightarrow> JObj [] | Some x \<Rightarrow> x)"
    by (auto simp: py_get_Inr)
  have "set_path [k1, k2] (JArr xs) fs = fs"
  proof (cases "map_of fkvs k1")
    case None
    then show ?thesis by (simp add: fs)
  next
    case (Some x)
    with c assms(3) have "set_path [k2] (JArr xs) x = x"
      by (simp add: set_path_key)
    with Some show ?thesis unfolding fs by (rule set_path_same)
  qed
  with f show ?thesis unfolding d by (rule set_path_same)
qed

lemma comments_same:
  assumes "comment_elements data = Inr (JArr xs)"
  shows "set_path [''fields'', ''comment'', ''comments''] (JArr xs) data = data"
  using assms
  by (auto simp: comment_elements_def andthen_eq_Inr intro: fields_list_same)

lemma worklogs_same:
  assumes "worklog_elements data = Inr (JArr xs)"
  shows "set_path [''fields'', ''worklog'', ''worklogs''] (JArr xs) data = data"
  using assms
  by (auto simp: worklog_elements_def andthen_eq_Inr intro: fields_list_same)

text \<open>What a method that returns does to the ticket: it appends events stamped above the
  watermark, none while the watermark is not positive.\<close>

lemma parse_changelog_Inr:
  assumes "parse_changelog lib t = Inr t'"
  shows "\<exists>es. events t' = events t @ es \<and> key t' = key t \<and> last_update t' = last_update t
           \<and> fresh t es
           \<and> (\<not> 0 < last_update t \<longrightarrow> es = [])"
proof -
  from assms obtain elements xs xs' es where
    el: "changelog_elements (json_data t) = Inr elements" and it: "py_iter elements = Inr xs"
    and sc: "scan_entries lib t (classify_change t) xs = Inr (xs', es)"
    and t': "t' = t\<lparr>events := events t @ es,
               json_data := write_back [''changelog'', ''histories''] elements xs' (json_data t)\<rparr>"
    by (auto simp: parse_changelog_def andthen_eq_Inr)
  from scan_entries_events[OF sc classify_change_events]
  have ev: "fresh t es" "\<not> 0 < last_update t \<longrightarrow> es = []"
    by (auto simp: fresh_def)
  from ev t' show ?thesis by auto
qed

lemma parse_comments_Inr:
  assumes "parse_comments lib t = Inr t'"
  shows "\<exists>es. events t' = events t @ es \<and> key t' = key t \<and> last_update t' = last_update t
           \<and> fresh t es
           \<and> (\<not> 0 < last_update t \<longrightarrow> es = [])"
proof -
  from assms obtain elements xs xs' es where
    el: "comment_elements (json_data t) = Inr elements" and it: "py_iter elements = Inr xs"
    and sc: "scan_entries lib t (classify_comment t) xs = Inr (xs', es)"
    and t': "t' = t\<lparr>events := events t @ es,
               json_data := write_back [''fields'', ''comment'', ''comments''] elements xs'
                              (json_data t)\<rparr>"
    by (auto simp: parse_comments_def andthen_eq_Inr)
  from scan_entries_events[OF sc classify_comment_events]
  have ev: "fresh t es" "\<not> 0 < last_update t \<longrightarrow> es = []"
    by (auto simp: fresh_def)
  from ev t' show ?thesis by auto
qed

lemma parse_worklog_Inr:
  assumes "parse_worklog lib t = Inr t'"
  shows "\<exists>es. events t' = events t @ es \<and> key t' = key t \<and> last_update t' = last_update t
           \<and> fresh t es
           \<and> (\<not> 0 < last_update t \<longrightarrow> es = [])"
proof -
  from assms obtain elements xs xs' es where
    el: "worklog_elements (json_data t) = Inr elements" and it: "py_iter elements = Inr xs"
    and sc: "scan_entries lib t (classify_worklog t) xs = Inr (xs', es)"
    and t': "t' = t\<lparr>events := events t @ es,
               json_data := write_back [''fields'', ''worklog'', ''worklogs''] elements xs'
                              (json_data t)\<rparr>"
    by (auto simp: parse_worklog_def andthen_eq_Inr)
  from scan_entries_events[OF sc classify_worklog_events]
  have ev: "fresh t es" "\<not> 0 < last_update t \<longrightarrow> es = []"
    by (auto simp: fresh_def)
  from ev t' show ?thesis by auto
qed

section \<open>One pass over an issue\<close>

lemma fresh_Nil [simp]: "fresh t []"
  by (simp add: fresh_def)

lemma fresh_append [simp]: "fresh t (es @ es') \<longleftrightarrow> fresh t es \<and> fresh t es'"
  by (auto simp: fresh_def)

lemma fresh_cong: "last_update t' = last_update t \<Longrightarrow> fresh t' es = fresh t es"
  by (simp add: fresh_def)

lemma ev_timestamps_fresh:
  assumes "fresh t es"
  shows "\<exists>ts. ev_timestamps es = Inr ts \<and> length ts = length es \<and> (\<forall>r \<in> set ts. last_update t < r)"
  using assms
proof (induction es)
  case Nil
  then show ?case by simp
next
  case (Cons e es)
  then obtain r where r: "map_of e ''timestamp'' = Some (EFloat r)" "last_update t < r"
    by (auto simp: fresh_def)
  from Cons obtain ts where "ev_timestamps es = Inr ts" "length ts = length es"
    "\<forall>r \<in> set ts. last_update t < r"
    by (auto simp: fresh_def)
  with r show ?case by (simp add: ev_timestamp_def)
qed

lemma py_max_Max: "ts \<noteq> [] \<Longrightarrow> py_max ts = Inr (Max (set ts))"
  by (cases ts) (simp_all add: Max.set_eq_fold del: set_simps)

lemma advance_watermark_Inr:
  assumes "advance_watermark UPDATES t = Inr UPDATES'" and "fresh t0 (events t)"
    and "hash_key (key t) = Inr h"
  shows "(events t = [] \<longrightarrow> UPDATES' = UPDATES) \<and>
         (events t \<noteq> [] \<longrightarrow>
            (\<exists>ts. ev_timestamps (events t) = Inr ts \<and> ts \<noteq> [] \<and>
               UPDATES' = UPDATES(h \<mapsto> Max (set ts)) \<and> last_update t0 < Max (set ts)))"
proof (cases "events t = []")
  case True
  with assms(1) show ?thesis by (simp add: advance_watermark_def)
next
  case False
  from ev_timestamps_fresh[OF assms(2)] obtain ts where
    ts: "ev_timestamps (events t) = Inr ts" "length ts = length (events t)"
    "\<forall>r \<in> set ts. last_update t0 < r"
    by blast
  with False have ne: "ts \<noteq> []" by auto
  then have "Max (set ts) \<in> set ts" by simp
  with ts have "last_update t0 < Max (set ts)" by blast
  with assms(1,3) False ts ne show ?thesis
    by (auto simp: advance_watermark_def py_max_Max store_set_def)
qed

lemma synth_create_Inr:
  assumes "synth_create lib now UPDATES issue ticket = Inr (U1, t1)"
  shows "key t1 = key ticket \<and> last_update t1 = last_update ticket \<and>
         (if brand_new now ticket
          then \<exists>h e fs fs' b. hash_key (key ticket) = Inr h
                 \<and> U1 = UPDATES(h \<mapsto> timestamp (created ticket))
                 \<and> py_getitem issue ''fields'' = Inr fs
                 \<and> make_event_dict lib ticket fs = Inr (fs', Some b)
                 \<and> events t1 = events ticket @ [e]
                 \<and> json_data t1 = set_path [''fields''] fs' issue
                 \<and> fresh ticket [e]
                 \<and> map_of e ''action'' = Some (EJson (JStr ''create''))
          else U1 = UPDATES \<and> t1 = ticket)"
proof (cases "brand_new now ticket")
  case False
  with assms show ?thesis by (simp add: synth_create_def)
next
  case True
  from assms True obtain h fs fs' b d where
    h: "hash_key (key ticket) = Inr h" and U1: "U1 = UPDATES(h \<mapsto> timestamp (created ticket))"
    and fs: "py_getitem issue ''fields'' = Inr fs"
    and m: "make_event_dict lib ticket fs = Inr (fs', Some b)"
    and t1: "t1 = ticket\<lparr>events := events ticket @
                [ev_set (ev_str (ev_str b ''action'' ''create'') ''action_human_text''
                   (''created '' @ py_str (key ticket) @ '': '' @ py_str (summary ticket)))
                 ''description'' (EJson d)],
              json_data := set_path [''fields''] fs' issue\<rparr>"
    by (auto simp: synth_create_def andthen_eq_Inr store_set_def split: option.splits)
  from make_event_dict_Some[OF m] obtain r where
    "map_of b ''timestamp'' = Some (EFloat r)" "last_update ticket < r"
    by blast
  with True h U1 fs m t1 show ?thesis
    by (auto simp: fresh_def)
qed

lemma process_issue_Inr:
  "process_issue lib LAUNCH_TIME now config UPDATES issue = Inr (UPDATES', t') \<longleftrightarrow>
     (\<exists>ticket U1 t0 t1 t2.
        JiraTicket_init lib LAUNCH_TIME UPDATES config issue = Inr ticket
        \<and> synth_create lib now UPDATES issue ticket = Inr (U1, t0)
        \<and> parse_changelog lib t0 = Inr t1 \<and> parse_comments lib t1 = Inr t2
        \<and> parse_worklog lib t2 = Inr t' \<and> advance_watermark U1 t' = Inr UPDATES')"
  by (auto simp: process_issue_def andthen_eq_Inr)

text \<open>What a pass that returns has done.\<close>

lemma pass_facts [consumes 1, case_names pass]:
  assumes "process_issue lib LAUNCH_TIME now config UPDATES issue = Inr (UPDATES', t')"
  obtains ticket h where
    "JiraTicket_init lib LAUNCH_TIME UPDATES config issue = Inr ticket"
    "hash_key (key ticket) = Inr h"
    "last_update ticket = watermark LAUNCH_TIME UPDATES h"
    "key t' = key ticket"
    "fresh ticket (events t')"
    "events t' = [] \<longrightarrow> UPDATES' = UPDATES"
    "events t' \<noteq> [] \<longrightarrow>
       (\<exists>ts. ev_timestamps (events t') = Inr ts \<and> ts \<noteq> []
          \<and> UPDATES' = UPDATES(h \<mapsto> Max (set ts))
          \<and> watermark LAUNCH_TIME UPDATES h < Max (set ts))"
    "brand_new now ticket \<longrightarrow>
       (\<exists>e. events t' = [e] \<and> map_of e ''action'' = Some (EJson (JStr ''create'')))"
    "\<not> brand_new now ticket \<and> \<not> 0 < last_update ticket \<longrightarrow> events t' = []"
proof -
  from assms obtain ticket U1 t0 t1 t2 where
    i: "JiraTicket_init lib LAUNCH_TIME UPDATES config issue = Inr ticket"
    and s: "synth_create lib now UPDATES issue ticket = Inr (U1, t0)"
    and p1: "parse_changelog lib t0 = Inr t1" and p2: "parse_comments lib t1 = Inr t2"
    and p3: "parse_worklog lib t2 = Inr t'" and a: "advance_watermark U1 t' = Inr UPDATES'"
    by (auto simp: process_issue_Inr)
  from JiraTicket_init_Inr[OF i] obtain h where
    h: "hash_key (key ticket) = Inr h" "last_update ticket = watermark LAUNCH_TIME UPDATES h"
    "events ticket = []" "json_data ticket = issue"
    by blast
  note s' = synth_create_Inr[OF s]
  from parse_changelog_Inr[OF p1] obtain es1 where
    e1: "events t1 = events t0 @ es1" "key t1 = key t0" "last_update t1 = last_update t0"
    "fresh t0 es1" "\<not> 0 < last_update t0 \<longrightarrow> es1 = []"
    by blast
  from parse_comments_Inr[OF p2] obtain es2 where
    e2: "events t2 = events t1 @ es2" "key t2 = key t1" "last_update t2 = last_update t1"
    "fresh t1 es2" "\<not> 0 < last_update t1 \<longrightarrow> es2 = []"
    by blast
  from parse_worklog_Inr[OF p3] obtain es3 where
    e3: "events t' = events t2 @ es3" "key t' = key t2" "last_update t' = last_update t2"
    "fresh t2 es3" "\<not> 0 < last_update t2 \<longrightarrow> es3 = []"
    by blast
  have k: "key t' = key ticket" and lu: "last_update t0 = last_update ticket"
    "last_update t1 = last_update ticket" "last_update t2 = last_update ticket"
    using s' e1 e2 e3 by simp_all
  have ev: "events t' = events t0 @ es1 @ es2 @ es3"
    using e1 e2 e3 by simp
  have f0: "fresh ticket (events t0)"
    using s' h(3) by (auto split: if_splits)
  have fr: "fresh ticket (events t')"
    using f0 e1(4) e2(4) e3(4) lu
    by (simp add: ev fresh_cong[of t0 ticket] fresh_cong[of t1 ticket] fresh_cong[of t2 ticket])
  have hk: "hash_key (key t') = Inr h" using k h by simp
  note adv = advance_watermark_Inr[OF a fr hk]
  have bn: "\<exists>e. events t' = [e] \<and> map_of e ''action'' = Some (EJson (JStr ''create''))"
    and U1bn: "U1 = UPDATES(h \<mapsto> timestamp (created ticket))"
    if b: "brand_new now ticket"
  proof -
    from b have z: "\<not> 0 < last_update ticket" by (simp add: brand_new_def)
    with e1 e2 e3 lu have "es1 = []" "es2 = []" "es3 = []" by simp_all
    with s' b h ev show "\<exists>e. events t' = [e] \<and> map_of e ''action'' = Some (EJson (JStr ''create''))"
      by auto
    from s' b h show "U1 = UPDATES(h \<mapsto> timestamp (created ticket))" by auto
  qed
  have nb: "U1 = UPDATES" "events t0 = []" "t0 = ticket" if "\<not> brand_new now ticket"
    using that s' h by simp_all
  have empty: "events t' = [] \<longrightarrow> UPDATES' = UPDATES"
    using adv bn nb by (cases "brand_new now ticket") auto
  have nonempty: "events t' \<noteq> [] \<longrightarrow>
              (\<exists>ts. ev_timestamps (events t') = Inr ts \<and> ts \<noteq> []
                 \<and> UPDATES' = UPDATES(h \<mapsto> Max (set ts))
                 \<and> watermark LAUNCH_TIME UPDATES h < Max (set ts))"
    using adv U1bn nb h(2) by (cases "brand_new now ticket") auto
  have quiet: "\<not> brand_new now ticket \<and> \<not> 0 < last_update ticket \<longrightarrow> events t' = []"
    using nb e1 e2 e3 lu ev by auto
  have bn': "brand_new now ticket \<longrightarrow>
       (\<exists>e. events t' = [e] \<and> map_of e ''action'' = Some (EJson (JStr ''create'')))"
    using bn by blast
  show ?thesis
    by (rule that[OF i h(1) h(2) k fr empty nonempty bn' quiet])
qed

section \<open>Advancing the watermark\<close>

lemma ev_timestamps_mem:
  "ev_timestamps es = Inr ts \<Longrightarrow> r \<in> set ts \<longleftrightarrow> (\<exists>e \<in> set es. ev_timestamp e = Inr r)"
proof (induction es arbitrary: ts)
  case Nil
  then show ?case by simp
next
  case (Cons e es)
  then obtain r' rs where e: "ev_timestamp e = Inr r'" and rs: "ev_timestamps es = Inr rs"
    and ts: "ts = r' # rs"
    by (auto simp: andthen_eq_Inr)
  have "r \<in> set rs \<longleftrightarrow> (\<exists>e \<in> set es. ev_timestamp e = Inr r)"
    using rs by (rule Cons.IH)
  with e ts show ?case by auto
qed

lemma ev_timestamps_same_set:
  assumes "ev_timestamps es = Inr ts" and "ev_timestamps es' = Inr ts'" and "set es' = set es"
  shows "set ts' = set ts"
proof (rule set_eqI)
  fix r
  show "r \<in> set ts' \<longleftrightarrow> r \<in> set ts"
    using assms by (simp add: ev_timestamps_mem)
qed

text \<open>The example of the specification: the greatest of 10, 25 and 17, in any order.\<close>

lemma py_max_example:
  "py_max [10, 25, 17] = Inr 25 \<and> py_max [25, 17, 10] = Inr 25 \<and> py_max [17, 10, 25] = Inr 25"
  by simp

text \<open>Two passes over \<open>issue_three\<close>, five seconds apart.\<close>

lemma pass_three:
  "map_sum id (\<lambda>s. (fst s, length (events (snd s))))
     (process_issue lib0 LAUNCH0 now0 config0 Map.empty issue_three)
   = Inr (Map.empty(JStr ''PROJ-4'' \<mapsto> 1683021605), 3)"
  by (simp add: issue_three_def eval_defs)

lemma pass_three_again:
  "map_sum id (\<lambda>s. (fst s, length (events (snd s))))
     (process_issue lib0 LAUNCH0 (now0 + 5000000) config0
        (Map.empty(JStr ''PROJ-4'' \<mapsto> 1683021605)) issue_three)
   = Inr (Map.empty(JStr ''PROJ-4'' \<mapsto> 1683021605), 0)"
  by (simp add: issue_three_def eval_defs)

text \<open>
  C3. After a pass over an issue: if the pass produced at least one event, the watermark
  stored for the issue is the greatest time stamp among the events of that issue, whatever
  their order (any list with the same events has the same greatest time stamp), and no other
  entry of the store has changed; if it produced none, the store is as it was.
\<close>

theorem watermark_is_max_timestamp:
  assumes "process_issue lib LAUNCH_TIME now config UPDATES issue = Inr (UPDATES', t')"
  shows "(events t' = [] \<longrightarrow> UPDATES' = UPDATES) \<and>
         (events t' \<noteq> [] \<longrightarrow>
            (\<exists>h ts. hash_key (key t') = Inr h \<and> ev_timestamps (events t') = Inr ts
               \<and> UPDATES' = UPDATES(h \<mapsto> Max (set ts))
               \<and> (\<forall>es ts'. set es = set (events t') \<and> ev_timestamps es = Inr ts'
                     \<longrightarrow> Max (set ts') = Max (set ts))))"
  using assms
proof (cases rule: pass_facts)
  case (pass ticket h)
  have "\<exists>h ts. hash_key (key t') = Inr h \<and> ev_timestamps (events t') = Inr ts
               \<and> UPDATES' = UPDATES(h \<mapsto> Max (set ts))
               \<and> (\<forall>es ts'. set es = set (events t') \<and> ev_timestamps es = Inr ts'
                     \<longrightarrow> Max (set ts') = Max (set ts))"
    if "events t' \<noteq> []"
  proof -
    from pass(7) that obtain ts where ts: "ev_timestamps (events t') = Inr ts"
      "UPDATES' = UPDATES(h \<mapsto> Max (set ts))"
      by blast
    have "Max (set ts') = Max (set ts)"
      if "set es = set (events t')" "ev_timestamps es = Inr ts'" for es ts'
      using ev_timestamps_same_set[OF ts(1) that(2) that(1)] by simp
    then have "\<forall>es ts'. set es = set (events t') \<and> ev_timestamps es = Inr ts'
                     \<longrightarrow> Max (set ts') = Max (set ts)"
      by blast
    moreover have "hash_key (key t') = Inr h" using pass(2,4) by simp
    ultimately show ?thesis using ts by (intro exI[of _ h] exI[of _ ts] conjI)
  qed
  with pass(6) show ?thesis by blast
qed

theorem watermark_is_max_timestamp_witness:
  "\<exists>UPDATES' t' h ts.
     process_issue lib0 LAUNCH0 now0 config0 Map.empty issue_three = Inr (UPDATES', t')
     \<and> length (events t') = 3
     \<and> hash_key (key t') = Inr h \<and> ev_timestamps (events t') = Inr ts
     \<and> UPDATES' = Map.empty(h \<mapsto> Max (set ts))
     \<and> UPDATES' (JStr ''PROJ-4'') = Some 1683021605"
proof -
  from pass_three obtain UPDATES' t' where
    r: "process_issue lib0 LAUNCH0 now0 config0 Map.empty issue_three = Inr (UPDATES', t')"
    and v: "UPDATES' = Map.empty(JStr ''PROJ-4'' \<mapsto> 1683021605)"
    and l: "length (events t') = 3"
    by (cases "process_issue lib0 LAUNCH0 now0 config0 Map.empty issue_three") auto
  from l have "events t' \<noteq> []" by auto
  with watermark_is_max_timestamp[OF r] obtain h ts where
    "hash_key (key t') = Inr h" "ev_timestamps (events t') = Inr ts"
    "UPDATES' = Map.empty(h \<mapsto> Max (set ts))"
    by blast
  moreover from v have "UPDATES' (JStr ''PROJ-4'') = Some 1683021605" by simp
  ultimately show ?thesis using r l by blast
qed

section \<open>Monotone watermarks\<close>

lemma pass_positive:
  assumes "process_issue lib LAUNCH_TIME now config UPDATES issue = Inr (UPDATES', t')"
    and "0 < LAUNCH_TIME" and "positive_store UPDATES"
  shows "positive_store UPDATES'"
  using assms(1)
proof (cases rule: pass_facts)
  case (pass ticket h)
  show ?thesis
  proof (cases "events t' = []")
    case True
    with pass(6) assms(3) show ?thesis by simp
  next
    case False
    with pass(7) obtain m where "UPDATES' = UPDATES(h \<mapsto> m)"
      "watermark LAUNCH_TIME UPDATES h < m"
      by blast
    with watermark_positive[OF assms(2,3), of h] assms(3) show ?thesis
      by (auto simp: positive_store_def)
  qed
qed

lemma reachable_positive:
  assumes "reachable lib LAUNCH_TIME config UPDATES" and "0 < LAUNCH_TIME"
  shows "positive_store UPDATES"
  using assms
proof (induction rule: reachable.induct)
  case start
  then show ?case by (simp add: positive_store_def)
next
  case (step UPDATES now issue UPDATES' t)
  then show ?case by (blast intro: pass_positive)
qed

text \<open>While the launch time is positive, no ticket the program builds passes the test of
  the create path: the \<^verbatim>\<open>if\<close> block under \<^verbatim>\<open># Is this a brand-new issue?\<close> never runs.\<close>

lemma create_path_never_taken:
  assumes "reachable lib LAUNCH_TIME config UPDATES" and "0 < LAUNCH_TIME"
    and "JiraTicket_init lib LAUNCH_TIME UPDATES config issue = Inr ticket"
  shows "\<not> brand_new now ticket"
  using init_last_update_positive[OF assms(2) reachable_positive[OF assms(1,2)] assms(3)]
  by (simp add: brand_new_def)

text \<open>
  C5. The watermark of every identifier is non-decreasing from one pass to the next: after
  a pass the store holds, for every identifier that had an entry, an entry at least as
  great, and the watermark read with the launch-time default is at least what it was. In
  every store the program reaches with a positive launch time the create path does not run,
  so the write at the end of the pass is the only write of the pass.
\<close>

theorem watermark_monotone:
  assumes "process_issue lib LAUNCH_TIME now config UPDATES issue = Inr (UPDATES', t')"
  shows "watermark LAUNCH_TIME UPDATES k \<le> watermark LAUNCH_TIME UPDATES' k \<and>
         (\<forall>v. UPDATES k = Some v \<longrightarrow> (\<exists>v'. UPDATES' k = Some v' \<and> v \<le> v')) \<and>
         (0 < LAUNCH_TIME \<and> reachable lib LAUNCH_TIME config UPDATES \<longrightarrow>
            (\<exists>ticket. JiraTicket_init lib LAUNCH_TIME UPDATES config issue = Inr ticket
               \<and> synth_create lib now UPDATES issue ticket = Inr (UPDATES, ticket)))"
  using assms
proof (cases rule: pass_facts)
  case (pass ticket h)
  have m: "watermark LAUNCH_TIME UPDATES k \<le> watermark LAUNCH_TIME UPDATES' k \<and>
         (\<forall>v. UPDATES k = Some v \<longrightarrow> (\<exists>v'. UPDATES' k = Some v' \<and> v \<le> v'))"
  proof (cases "events t' = []")
    case True
    with pass(6) show ?thesis by simp
  next
    case False
    with pass(7) obtain m where "UPDATES' = UPDATES(h \<mapsto> m)"
      "watermark LAUNCH_TIME UPDATES h < m"
      by blast
    then show ?thesis by (auto simp: watermark_def split: option.splits)
  qed
  have "synth_create lib now UPDATES issue ticket = Inr (UPDATES, ticket)"
    if "0 < LAUNCH_TIME \<and> reachable lib LAUNCH_TIME config UPDATES"
    using create_path_never_taken[of lib LAUNCH_TIME config UPDATES issue ticket now] that pass(1)
    by (simp add: synth_create_def)
  with m pass(1) show ?thesis by blast
qed

theorem watermark_monotone_witness:
  "\<exists>U1 t1 U2 t2.
     process_issue lib0 LAUNCH0 now0 config0 Map.empty issue_three = Inr (U1, t1)
     \<and> process_issue lib0 LAUNCH0 (now0 + 5000000) config0 U1 issue_three = Inr (U2, t2)
     \<and> watermark LAUNCH0 Map.empty (JStr ''PROJ-4'') \<le> watermark LAUNCH0 U1 (JStr ''PROJ-4'')
     \<and> watermark LAUNCH0 U1 (JStr ''PROJ-4'') \<le> watermark LAUNCH0 U2 (JStr ''PROJ-4'')
     \<and> 0 < LAUNCH0 \<and> reachable lib0 LAUNCH0 config0 U1
     \<and> (\<exists>ticket. JiraTicket_init lib0 LAUNCH0 U1 config0 issue_three = Inr ticket
           \<and> synth_create lib0 (now0 + 5000000) U1 issue_three ticket = Inr (U1, ticket))"
proof -
  from pass_three obtain U1 t1 where
    r1: "process_issue lib0 LAUNCH0 now0 config0 Map.empty issue_three = Inr (U1, t1)"
    and u1: "U1 = Map.empty(JStr ''PROJ-4'' \<mapsto> 1683021605)"
    by (cases "process_issue lib0 LAUNCH0 now0 config0 Map.empty issue_three") auto
  from pass_three_again obtain U2 t2 where
    r2: "process_issue lib0 LAUNCH0 (now0 + 5000000) config0 U1 issue_three = Inr (U2, t2)"
    unfolding u1
    by (cases "process_issue lib0 LAUNCH0 (now0 + 5000000) config0
                 (Map.empty(JStr ''PROJ-4'' \<mapsto> 1683021605)) issue_three") auto
  have l: "0 < LAUNCH0" by (simp add: LAUNCH0_def)
  have re: "reachable lib0 LAUNCH0 config0 U1"
    using reachable.start r1 by (rule reachable.step)
  note m1 = watermark_monotone[OF r1, of "JStr ''PROJ-4''"]
  note m2 = watermark_monotone[OF r2, of "JStr ''PROJ-4''"]
  from m2 l re obtain ticket where
    "JiraTicket_init lib0 LAUNCH0 U1 config0 issue_three = Inr ticket"
    "synth_create lib0 (now0 + 5000000) U1 issue_three ticket = Inr (U1, ticket)"
    by blast
  with m1 m2 l re r1 r2 show ?thesis by blast
qed

section \<open>The guard on the watermark\<close>

text \<open>With a stored watermark of \<open>0\<close> the create path does run: \<open>issue_new\<close> gets its
  \<open>create\<close> event with the description, and the watermark ends at the creation time.\<close>

lemma create_path_at_zero:
  "map_sum id (\<lambda>s. (fst s (JStr ''PROJ-7''),
                    map (\<lambda>e. (map_of e ''action'', map_of e ''description'')) (events (snd s))))
     (process_issue lib0 LAUNCH0 now0 config0 (Map.empty(JStr ''PROJ-7'' \<mapsto> 0)) issue_new)
   = Inr (Some 1683021603,
          [(Some (EJson (JStr ''create'')), Some (EJson (JStr ''Steps to reproduce'')))])"
  by (simp add: issue_new_def eval_defs)


text \<open>The pass over \<open>issue_replay\<close> while the store is empty: one event, for the comment
  made after the launch.\<close>

lemma pass_replay:
  "map_sum id (map (\<lambda>e. (map_of e ''action'', map_of e ''body'', map_of e ''timestamp''))
                \<circ> events \<circ> snd)
     (process_issue lib0 LAUNCH0 now0 config0 Map.empty issue_replay)
   = Inr [(Some (EJson (JStr ''comment'')), Some (EJson (JStr ''after the launch'')),
           Some (EFloat 1683021604))]"
  by (simp add: issue_replay_def eval_defs)



section \<open>The snapshot after a pass\<close>

lemma writes_author_cong:
  "last_update t' = last_update t \<Longrightarrow> writes_author lib t' = writes_author lib t"
  by (rule ext) (simp add: writes_author_def split: json.splits sum.splits)

lemma list_writes_cong:
  assumes "last_update t' = last_update t"
  shows "list_writes lib t' el = list_writes lib t el"
  unfolding list_writes_def writes_author_cong[OF assms] by (rule refl)

text \<open>\<^verbatim>\<open>make_event_dict\<close> returns the entry as it was exactly when the entry is not one it
  writes to; what it writes is an \<open>author\<close>, a copy of the \<open>creator\<close>.\<close>

lemma make_event_dict_writes:
  assumes "make_event_dict lib t x = Inr (x', b)"
  shows "(x' = x \<longleftrightarrow> \<not> writes_author lib t x) \<and>
         (writes_author lib t x \<longrightarrow>
            (\<exists>kvs c. x = JObj kvs \<and> map_of kvs ''author'' = None
               \<and> x' = JObj (AList.update ''author'' c kvs)))"
proof (cases b)
  case None
  with assms make_event_dict_None[of lib t x x']
  have x': "x' = x" and c: "py_contains ''created'' x = Inr False
           \<or> (\<exists>r. change_epoch lib x = Inr r \<and> r \<le> last_update t)"
    by blast+
  from c have "\<not> writes_author lib t x"
    by (cases x) (auto simp: writes_author_def)
  with x' show ?thesis by simp
next
  case (Some ev)
  with assms make_event_dict_Some[of lib t x x' ev] obtain r where
    r: "change_epoch lib x = Inr r" "last_update t < r" and w: "rewrite_author x = Inr x'"
    by blast
  from r(1) obtain kvs where x: "x = JObj kvs"
    by (cases x) (auto simp: change_epoch_def)
  from r(1) x have cr: "map_of kvs ''created'' \<noteq> None"
    by (auto simp: change_epoch_obj)
  show ?thesis
  proof (cases "map_of kvs ''author'' = None \<and> map_of kvs ''creator'' \<noteq> None")
    case True
    then obtain c where c: "map_of kvs ''creator'' = Some c" by auto
    with True w x have x': "x' = JObj (AList.update ''author'' c kvs)"
      by (simp add: rewrite_author_obj)
    have "map_of (AList.update ''author'' c kvs) ''author'' \<noteq> map_of kvs ''author''"
      using True by (simp add: update_conv')
    then have "AList.update ''author'' c kvs \<noteq> kvs" by auto
    with x x' True r cr show ?thesis by (auto simp: writes_author_def)
  next
    case False
    with w x have "x' = x"
      by (auto simp: rewrite_author_obj split: option.splits)
    with False x show ?thesis by (auto simp: writes_author_def)
  qed
qed

lemma scan_entries_writes:
  assumes "scan_entries lib t classify xs = Inr (xs', es)"
  shows "length xs' = length xs \<and> (xs' = xs \<longleftrightarrow> \<not> list_ex (writes_author lib t) xs)"
  using assms
proof (induction xs arbitrary: xs' es)
  case Nil
  then show ?case by simp
next
  case (Cons x xs)
  from Cons.prems obtain x' b es1 ys es2 where
    m: "make_event_dict lib t x = Inr (x', b)"
    and s: "scan_entries lib t classify xs = Inr (ys, es2)"
    and xs': "xs' = x' # ys"
    by (auto simp: scan_entries_Cons)
  from make_event_dict_writes[OF m] have "x' = x \<longleftrightarrow> \<not> writes_author lib t x" by blast
  with Cons.IH[OF s] xs' show ?case by auto
qed

text \<open>Reading a list back after it has been put where it was read.\<close>

lemma py_get_set_path_other:
  "k \<noteq> k1 \<Longrightarrow> py_get (set_path (k1 # ks) v d) k d0 = py_get d k d0"
  by (cases d) (auto simp: update_conv' split: option.splits)

lemma py_getitem_set_path_other:
  "k \<noteq> k1 \<Longrightarrow> py_getitem (set_path (k1 # ks) v d) k = py_getitem d k"
  by (cases d) (auto simp: update_conv' split: option.splits)

lemma py_contains_set_path_other:
  "k \<noteq> k1 \<Longrightarrow> py_contains k (set_path (k1 # ks) v (JObj kvs)) = py_contains k (JObj kvs)"
  by (auto simp: update_conv' split: option.splits)

lemma py_getitem_set_path_same:
  "py_getitem d k = Inr c \<Longrightarrow> py_getitem (set_path (k # ks) v d) k = Inr (set_path ks v c)"
  by (cases d) (auto simp: update_conv' split: option.splits)

lemma get_set_key:
  assumes "py_get c k (JArr []) = Inr (JArr xs)" and "length ys = length xs"
  shows "py_get (set_path [k] (JArr ys) c) k (JArr []) = Inr (JArr ys)"
  using assms by (cases c) (auto simp: update_conv' split: option.splits)

lemma get_set_key2:
  assumes "py_get d k1 (JObj []) = Inr c" and "py_get c k2 (JArr []) = Inr (JArr xs)"
    and "length ys = length xs"
  shows "andthen (py_get (set_path [k1, k2] (JArr ys) d) k1 (JObj []))
           (\<lambda>c'. py_get c' k2 (JArr [])) = Inr (JArr ys)"
proof -
  from assms(1) obtain kvs where d: "d = JObj kvs"
    and c: "c = (case map_of kvs k1 of None \<Rightarrow> JObj [] | Some x \<Rightarrow> x)"
    by (auto simp: py_get_Inr)
  show ?thesis
  proof (cases "map_of kvs k1")
    case None
    with c assms(2,3) show ?thesis by (simp add: d)
  next
    case (Some x)
    with c have "c = x" by simp
    with assms(2,3) have "py_get (set_path [k2] (JArr ys) x) k2 (JArr []) = Inr (JArr ys)"
      by (simp add: get_set_key)
    with Some show ?thesis by (simp add: d update_conv')
  qed
qed

lemma changelog_written:
  assumes "changelog_elements data = Inr (JArr xs)" and "length ys = length xs"
  shows "changelog_elements (set_path [''changelog'', ''histories''] (JArr ys) data)
           = Inr (JArr ys)"
  using assms
  by (auto simp: changelog_elements_def andthen_eq_Inr dest: get_set_key2)

lemma fields_list_written:
  assumes "py_getitem data ''fields'' = Inr fs"
    and "andthen (py_get fs k1 (JObj [])) (\<lambda>c. py_get c k2 (JArr [])) = Inr (JArr xs)"
    and "length ys = length xs"
  shows "andthen (py_getitem (set_path [''fields'', k1, k2] (JArr ys) data) ''fields'') (\<lambda>fs'.
         andthen (py_get fs' k1 (JObj [])) (\<lambda>c. py_get c k2 (JArr []))) = Inr (JArr ys)"
proof -
  from assms(2) obtain c where c: "py_get fs k1 (JObj []) = Inr c"
    "py_get c k2 (JArr []) = Inr (JArr xs)"
    by (auto simp: andthen_eq_Inr)
  from get_set_key2[OF c assms(3)] py_getitem_set_path_same[OF assms(1)]
  show ?thesis by simp
qed

lemma comments_written:
  assumes "comment_elements data = Inr (JArr xs)" and "length ys = length xs"
  shows "comment_elements (set_path [''fields'', ''comment'', ''comments''] (JArr ys) data)
           = Inr (JArr ys)"
proof -
  from assms(1) obtain fs where fs: "py_getitem data ''fields'' = Inr fs"
    and l: "andthen (py_get fs ''comment'' (JObj [])) (\<lambda>c. py_get c ''comments'' (JArr []))
              = Inr (JArr xs)"
    by (auto simp: comment_elements_def andthen_eq_Inr)
  from fields_list_written[OF fs l assms(2)] show ?thesis
    by (simp add: comment_elements_def)
qed

lemma worklogs_written:
  assumes "worklog_elements data = Inr (JArr xs)" and "length ys = length xs"
  shows "worklog_elements (set_path [''fields'', ''worklog'', ''worklogs''] (JArr ys) data)
           = Inr (JArr ys)"
proof -
  from assms(1) obtain fs where fs: "py_getitem data ''fields'' = Inr fs"
    and l: "andthen (py_get fs ''worklog'' (JObj [])) (\<lambda>c. py_get c ''worklogs'' (JArr []))
              = Inr (JArr xs)"
    by (auto simp: worklog_elements_def andthen_eq_Inr)
  from fields_list_written[OF fs l assms(2)] show ?thesis
    by (simp add: worklog_elements_def)
qed

text \<open>A write under one key leaves what is read under another.\<close>

lemma changelog_elements_fields:
  "changelog_elements (set_path (''fields'' # ks) v data) = changelog_elements data"
  by (simp add: changelog_elements_def py_get_set_path_other)

lemma fields_changelog:
  "py_getitem (set_path (''changelog'' # ks) v data) ''fields'' = py_getitem data ''fields''"
  by (simp add: py_getitem_set_path_other)

lemma inside_fields_other:
  assumes "k \<noteq> k1"
  shows "andthen (py_getitem (set_path (''fields'' # k1 # ks) v data) ''fields'') (\<lambda>fs. f (py_get fs k d0))
         = andthen (py_getitem data ''fields'') (\<lambda>fs. f (py_get fs k d0))"
proof (cases "py_getitem data ''fields''")
  case (Inl e)
  then have "set_path (''fields'' # k1 # ks) v data = data"
    by (cases data) (auto split: option.splits)
  then show ?thesis by simp
next
  case (Inr fs)
  from py_getitem_set_path_same[OF Inr] assms show ?thesis
    by (simp add: Inr py_get_set_path_other)
qed

lemma comment_elements_worklog:
  "comment_elements (set_path [''fields'', ''worklog'', ''worklogs''] v data)
     = comment_elements data"
  using inside_fields_other[of "''comment''" "''worklog''" "[''worklogs'']" v data
      "\<lambda>m. andthen m (\<lambda>c. py_get c ''comments'' (JArr []))" "JObj []"]
  by (simp add: comment_elements_def)

lemma worklog_elements_comment:
  "worklog_elements (set_path [''fields'', ''comment'', ''comments''] v data)
     = worklog_elements data"
  using inside_fields_other[of "''worklog''" "''comment''" "[''comments'']" v data
      "\<lambda>m. andthen m (\<lambda>c. py_get c ''worklogs'' (JArr []))" "JObj []"]
  by (simp add: worklog_elements_def)

lemma fields_author_inside:
  assumes "''author'' \<noteq> k1"
  shows "fields_author (set_path (''fields'' # k1 # ks) v data) = fields_author data"
proof (cases "py_getitem data ''fields''")
  case (Inl e)
  then have "set_path (''fields'' # k1 # ks) v data = data"
    by (cases data) (auto split: option.splits)
  then show ?thesis by simp
next
  case (Inr fs)
  show ?thesis
  proof (cases fs)
    case (JObj fkvs)
    with py_getitem_set_path_same[OF Inr, of "k1 # ks" v]
      py_contains_set_path_other[OF assms, of ks v fkvs]
    show ?thesis
      by (simp add: fields_author_def Inr)
  qed (use py_getitem_set_path_same[OF Inr, of "k1 # ks" v] in
        \<open>simp_all add: fields_author_def Inr\<close>)
qed

text \<open>What each step of a pass does to the snapshot: it leaves it as it was when it has no
  entry to write to, and a write shows in what is read back.\<close>

lemma synth_create_snapshot:
  assumes "synth_create lib now UPDATES issue ticket = Inr (U1, t0)"
    and "json_data ticket = issue"
  shows "(\<not> (brand_new now ticket \<and>
              (case py_getitem issue ''fields'' of
                 Inr fs \<Rightarrow> writes_author lib ticket fs | Inl e \<Rightarrow> False))
            \<longrightarrow> json_data t0 = issue) \<and>
         (fields_author (json_data t0) = fields_author issue \<longrightarrow>
            \<not> (brand_new now ticket \<and>
               (case py_getitem issue ''fields'' of
                  Inr fs \<Rightarrow> writes_author lib ticket fs | Inl e \<Rightarrow> False))) \<and>
         changelog_elements (json_data t0) = changelog_elements issue \<and>
         comment_elements (json_data t0) = comment_elements issue \<and>
         worklog_elements (json_data t0) = worklog_elements issue"
proof (cases "brand_new now ticket")
  case False
  with synth_create_Inr[OF assms(1)] assms(2) show ?thesis by simp
next
  case True
  with synth_create_Inr[OF assms(1)] obtain fs fs' b where
    fs: "py_getitem issue ''fields'' = Inr fs"
    and m: "make_event_dict lib ticket fs = Inr (fs', Some b)"
    and j: "json_data t0 = set_path [''fields''] fs' issue"
    by auto
  from fs obtain ikvs where i: "issue = JObj ikvs" "map_of ikvs ''fields'' = Some fs"
    by (auto simp: py_getitem_Inr)
  note w = make_event_dict_writes[OF m]
  from py_getitem_set_path_same[OF fs, of "[]" fs'] j
  have f': "py_getitem (json_data t0) ''fields'' = Inr fs'" by simp
  have cl: "changelog_elements (json_data t0) = changelog_elements issue"
    unfolding j by (rule changelog_elements_fields)
  show ?thesis
  proof (cases "writes_author lib ticket fs")
    case False
    with w have "fs' = fs" by simp
    with j i have "json_data t0 = issue" by (simp add: update_triv)
    with False fs show ?thesis by simp
  next
    case wr: True
    with w obtain kvs c where k: "fs = JObj kvs" "map_of kvs ''author'' = None"
      "fs' = JObj (AList.update ''author'' c kvs)"
      by blast
    from k f' fs have "fields_author (json_data t0) \<noteq> fields_author issue"
      by (simp add: fields_author_def update_conv')
    moreover from k f' fs have "comment_elements (json_data t0) = comment_elements issue"
      by (simp add: comment_elements_def update_conv')
    moreover from k f' fs have "worklog_elements (json_data t0) = worklog_elements issue"
      by (simp add: worklog_elements_def update_conv')
    ultimately show ?thesis using cl wr True fs by simp
  qed
qed

lemma parse_changelog_snapshot:
  assumes "parse_changelog lib t = Inr t'"
  shows "(\<not> list_writes lib t (changelog_elements (json_data t)) \<longrightarrow> json_data t' = json_data t) \<and>
         (changelog_elements (json_data t') = changelog_elements (json_data t) \<longrightarrow>
            \<not> list_writes lib t (changelog_elements (json_data t))) \<and>
         py_getitem (json_data t') ''fields'' = py_getitem (json_data t) ''fields''"
proof -
  from assms obtain elements xs xs' es where
    el: "changelog_elements (json_data t) = Inr elements" and it: "py_iter elements = Inr xs"
    and sc: "scan_entries lib t (classify_change t) xs = Inr (xs', es)"
    and t': "json_data t' = write_back [''changelog'', ''histories''] elements xs' (json_data t)"
    by (auto simp: parse_changelog_def andthen_eq_Inr)
  note w = scan_entries_writes[OF sc]
  show ?thesis
  proof (cases elements)
    case (JArr ys)
    with it have xs: "xs = ys" by simp
    from t' JArr have j: "json_data t' = set_path [''changelog'', ''histories''] (JArr xs')
                            (json_data t)"
      by (simp add: write_back_def)
    from el JArr xs have el': "changelog_elements (json_data t) = Inr (JArr xs)" by simp
    from w have len: "length xs' = length xs" by simp
    have "json_data t' = json_data t" if "\<not> list_writes lib t (changelog_elements (json_data t))"
    proof -
      from that el' w have "xs' = xs" by (simp add: list_writes_def)
      with j el' show ?thesis by (simp add: changelog_same)
    qed
    moreover have "\<not> list_writes lib t (changelog_elements (json_data t))"
      if "changelog_elements (json_data t') = changelog_elements (json_data t)"
    proof -
      from changelog_written[OF el' len] j
      have "changelog_elements (json_data t') = Inr (JArr xs')" by simp
      with that el' have "xs' = xs" by simp
      with w el' show ?thesis by (simp add: list_writes_def)
    qed
    moreover have "py_getitem (json_data t') ''fields'' = py_getitem (json_data t) ''fields''"
      unfolding j by (rule fields_changelog)
    ultimately show ?thesis by blast
  qed (simp_all add: t' el write_back_def list_writes_def)
qed

lemma parse_comments_snapshot:
  assumes "parse_comments lib t = Inr t'"
  shows "(\<not> list_writes lib t (comment_elements (json_data t)) \<longrightarrow> json_data t' = json_data t) \<and>
         (comment_elements (json_data t') = comment_elements (json_data t) \<longrightarrow>
            \<not> list_writes lib t (comment_elements (json_data t))) \<and>
         changelog_elements (json_data t') = changelog_elements (json_data t) \<and>
         worklog_elements (json_data t') = worklog_elements (json_data t) \<and>
         fields_author (json_data t') = fields_author (json_data t)"
proof -
  from assms obtain elements xs xs' es where
    el: "comment_elements (json_data t) = Inr elements" and it: "py_iter elements = Inr xs"
    and sc: "scan_entries lib t (classify_comment t) xs = Inr (xs', es)"
    and t': "json_data t' = write_back [''fields'', ''comment'', ''comments''] elements xs'
                              (json_data t)"
    by (auto simp: parse_comments_def andthen_eq_Inr)
  note w = scan_entries_writes[OF sc]
  show ?thesis
  proof (cases elements)
    case (JArr ys)
    with it have xs: "xs = ys" by simp
    from t' JArr have j: "json_data t' = set_path [''fields'', ''comment'', ''comments''] (JArr xs')
                            (json_data t)"
      by (simp add: write_back_def)
    from el JArr xs have el': "comment_elements (json_data t) = Inr (JArr xs)" by simp
    from w have len: "length xs' = length xs" by simp
    have "json_data t' = json_data t" if "\<not> list_writes lib t (comment_elements (json_data t))"
    proof -
      from that el' w have "xs' = xs" by (simp add: list_writes_def)
      with j el' show ?thesis by (simp add: comments_same)
    qed
    moreover have "\<not> list_writes lib t (comment_elements (json_data t))"
      if "comment_elements (json_data t') = comment_elements (json_data t)"
    proof -
      from comments_written[OF el' len] j
      have "comment_elements (json_data t') = Inr (JArr xs')" by simp
      with that el' have "xs' = xs" by simp
      with w el' show ?thesis by (simp add: list_writes_def)
    qed
    moreover have "changelog_elements (json_data t') = changelog_elements (json_data t)"
      unfolding j by (rule changelog_elements_fields)
    moreover have "worklog_elements (json_data t') = worklog_elements (json_data t)"
      unfolding j by (rule worklog_elements_comment)
    moreover have "fields_author (json_data t') = fields_author (json_data t)"
      unfolding j by (rule fields_author_inside) simp
    ultimately show ?thesis by blast
  qed (simp_all add: t' el write_back_def list_writes_def)
qed

lemma parse_worklog_snapshot:
  assumes "parse_worklog lib t = Inr t'"
  shows "(\<not> list_writes lib t (worklog_elements (json_data t)) \<longrightarrow> json_data t' = json_data t) \<and>
         (worklog_elements (json_data t') = worklog_elements (json_data t) \<longrightarrow>
            \<not> list_writes lib t (worklog_elements (json_data t))) \<and>
         changelog_elements (json_data t') = changelog_elements (json_data t) \<and>
         comment_elements (json_data t') = comment_elements (json_data t) \<and>
         fields_author (json_data t') = fields_author (json_data t)"
proof -
  from assms obtain elements xs xs' es where
    el: "worklog_elements (json_data t) = Inr elements" and it: "py_iter elements = Inr xs"
    and sc: "scan_entries lib t (classify_worklog t) xs = Inr (xs', es)"
    and t': "json_data t' = write_back [''fields'', ''worklog'', ''worklogs''] elements xs'
                              (json_data t)"
    by (auto simp: parse_worklog_def andthen_eq_Inr)
  note w = scan_entries_writes[OF sc]
  show ?thesis
  proof (cases elements)
    case (JArr ys)
    with it have xs: "xs = ys" by simp
    from t' JArr have j: "json_data t' = set_path [''fields'', ''worklog'', ''worklogs''] (JArr xs')
                            (json_data t)"
      by (simp add: write_back_def)
    from el JArr xs have el': "worklog_elements (json_data t) = Inr (JArr xs)" by simp
    from w have len: "length xs' = length xs" by simp
    have "json_data t' = json_data t" if "\<not> list_writes lib t (worklog_elements (json_data t))"
    proof -
      from that el' w have "xs' = xs" by (simp add: list_writes_def)
      with j el' show ?thesis by (simp add: worklogs_same)
    qed
    moreover have "\<not> list_writes lib t (worklog_elements (json_data t))"
      if "worklog_elements (json_data t') = worklog_elements (json_data t)"
    proof -
      from worklogs_written[OF el' len] j
      have "worklog_elements (json_data t') = Inr (JArr xs')" by simp
      with that el' have "xs' = xs" by simp
      with w el' show ?thesis by (simp add: list_writes_def)
    qed
    moreover have "changelog_elements (json_data t') = changelog_elements (json_data t)"
      unfolding j by (rule changelog_elements_fields)
    moreover have "comment_elements (json_data t') = comment_elements (json_data t)"
      unfolding j by (rule comment_elements_worklog)
    moreover have "fields_author (json_data t') = fields_author (json_data t)"
      unfolding j by (rule fields_author_inside) simp
    ultimately show ?thesis by blast
  qed (simp_all add: t' el write_back_def list_writes_def)
qed

text \<open>
  C7 as stated fails: the comment of \<open>issue_comment\<close> is newer than the watermark and names
  a creator and no author, and after the pass the snapshot holds an \<open>author\<close> in it.
\<close>

theorem pass_writes_author_into_snapshot:
  "map_sum id (json_data \<circ> snd) (process_issue lib0 LAUNCH0 now0 config0 Map.empty issue_comment)
   = Inr (JObj [(''key'', JStr ''PROJ-3''),
            (''fields'', JObj [(''summary'', JStr ''Typo in docs''),
               (''created'', JStr ''2023-04-28T12:00:00.000+0000''),
               (''comment'', JObj [(''comments'', JArr [
                  JObj [(''created'', JStr ''2023-05-02T10:00:02.000+0000''),
                        (''creator'', JObj [(''displayName'', JStr ''Carol''),
                                            (''name'', JStr ''carol'')]),
                        (''body'', JStr ''Seen on 2.1 as well''),
                        (''author'', JObj [(''displayName'', JStr ''Carol''),
                                           (''name'', JStr ''carol'')])]])])])])
   \<and> map_sum id (json_data \<circ> snd)
        (process_issue lib0 LAUNCH0 now0 config0 Map.empty issue_comment) \<noteq> Inr issue_comment"
  by (simp add: issue_comment_def comment_by_creator_def eval_defs)

text \<open>The comment of \<open>issue_comment\<close> is an entry the pass writes to.\<close>

lemma comment_is_written:
  "\<exists>ticket. JiraTicket_init lib0 LAUNCH0 Map.empty config0 issue_comment = Inr ticket
      \<and> pass_writes lib0 now0 ticket issue_comment"
  by (simp add: issue_comment_def comment_by_creator_def pass_writes_def list_writes_def
      writes_author_def eval_defs)

text \<open>The pass over \<open>issue_quiet\<close> while the store is empty: one event, for the status
  change.\<close>

lemma pass_quiet:
  "map_sum id (map (\<lambda>e. map_of e ''action'') \<circ> events \<circ> snd)
     (process_issue lib0 LAUNCH0 now0 config0 Map.empty issue_quiet)
   = Inr [Some (EJson (JStr ''status''))]"
  by (simp add: issue_quiet_def eval_defs)

text \<open>
  C7, amended. A pass that returns leaves the snapshot as it was exactly when the snapshot
  has no entry that the pass writes to. The entries written to are those that reach the
  assignment in \<^verbatim>\<open>make_event_dict\<close>: an element of the history, comment or worklog list
  with a creation time, an effective time above the watermark, a creator and no author, and
  the fields of the issue when the create block is entered and they hold a creator and no
  author. Every other snapshot is read only.
\<close>

theorem snapshot_unchanged_unless_author_written:
  assumes "process_issue lib LAUNCH_TIME now config UPDATES issue = Inr (UPDATES', t')"
    and "JiraTicket_init lib LAUNCH_TIME UPDATES config issue = Inr ticket"
  shows "json_data t' = issue \<longleftrightarrow> \<not> pass_writes lib now ticket issue"
proof -
  from assms obtain U1 t0 t1 t2 where
    s: "synth_create lib now UPDATES issue ticket = Inr (U1, t0)"
    and p1: "parse_changelog lib t0 = Inr t1" and p2: "parse_comments lib t1 = Inr t2"
    and p3: "parse_worklog lib t2 = Inr t'"
    by (auto simp: process_issue_Inr)
  from JiraTicket_init_Inr[OF assms(2)] have jd: "json_data ticket = issue" by blast
  from synth_create_Inr[OF s] have l0: "last_update t0 = last_update ticket" by simp
  from parse_changelog_Inr[OF p1] l0 have l1: "last_update t1 = last_update ticket" by auto
  from parse_comments_Inr[OF p2] l1 have l2: "last_update t2 = last_update ticket" by auto
  define w0 where "w0 \<longleftrightarrow> brand_new now ticket \<and>
     (case py_getitem issue ''fields'' of Inr fs \<Rightarrow> writes_author lib ticket fs | Inl e \<Rightarrow> False)"
  define w1 where "w1 = list_writes lib ticket (changelog_elements issue)"
  define w2 where "w2 = list_writes lib ticket (comment_elements issue)"
  define w3 where "w3 = list_writes lib ticket (worklog_elements issue)"
  have pw: "pass_writes lib now ticket issue \<longleftrightarrow> w0 \<or> w1 \<or> w2 \<or> w3"
    by (simp add: pass_writes_def w0_def w1_def w2_def w3_def)
  note s0 = synth_create_snapshot[OF s jd, folded w0_def]
  note s1 = parse_changelog_snapshot[OF p1, unfolded list_writes_cong[OF l0]]
  note s2 = parse_comments_snapshot[OF p2, unfolded list_writes_cong[OF l1]]
  note s3 = parse_worklog_snapshot[OF p3, unfolded list_writes_cong[OF l2]]
  from s1 have f1: "py_getitem (json_data t1) ''fields'' = py_getitem (json_data t0) ''fields''"
    by simp
  have cm1: "comment_elements (json_data t1) = comment_elements issue"
    using s0 f1 by (simp add: comment_elements_def)
  have wl1: "worklog_elements (json_data t1) = worklog_elements issue"
    using s0 f1 by (simp add: worklog_elements_def)
  have fa1: "fields_author (json_data t1) = fields_author (json_data t0)"
    using f1 by (simp add: fields_author_def)
  have cl0: "changelog_elements (json_data t0) = changelog_elements issue"
    using s0 by simp
  have wl2: "worklog_elements (json_data t2) = worklog_elements issue"
    using s2 wl1 by simp
  show ?thesis
  proof
    assume eq: "json_data t' = issue"
    have "fields_author (json_data t') = fields_author (json_data t0)"
      using s3 s2 fa1 by simp
    with eq s0 have n0: "\<not> w0" by simp
    have "changelog_elements (json_data t') = changelog_elements (json_data t1)"
      using s3 s2 by simp
    with eq cl0 have "changelog_elements (json_data t1) = changelog_elements (json_data t0)"
      by simp
    with s1 cl0 have n1: "\<not> w1" by (simp add: w1_def)
    have "comment_elements (json_data t') = comment_elements (json_data t2)"
      using s3 by simp
    with eq cm1 have "comment_elements (json_data t2) = comment_elements (json_data t1)"
      by simp
    with s2 cm1 have n2: "\<not> w2" by (simp add: w2_def)
    from eq wl2 have "worklog_elements (json_data t') = worklog_elements (json_data t2)"
      by simp
    with s3 wl2 have n3: "\<not> w3" by (simp add: w3_def)
    from n0 n1 n2 n3 pw show "\<not> pass_writes lib now ticket issue" by simp
  next
    assume "\<not> pass_writes lib now ticket issue"
    with pw have n: "\<not> w0" "\<not> w1" "\<not> w2" "\<not> w3" by simp_all
    from n(1) s0 have j0: "json_data t0 = issue" by simp
    from n(2) s1 j0 have j1: "json_data t1 = issue" by (simp add: w1_def)
    from n(3) s2 j1 have j2: "json_data t2 = issue" by (simp add: w2_def)
    from n(4) s3 j2 show "json_data t' = issue" by (simp add: w3_def)
  qed
qed

theorem snapshot_unchanged_unless_author_written_witness:
  "\<exists>UPDATES' t' ticket.
     process_issue lib0 LAUNCH0 now0 config0 Map.empty issue_quiet = Inr (UPDATES', t')
     \<and> JiraTicket_init lib0 LAUNCH0 Map.empty config0 issue_quiet = Inr ticket
     \<and> \<not> pass_writes lib0 now0 ticket issue_quiet
     \<and> length (events t') = 1 \<and> json_data t' = issue_quiet"
proof -
  have "map_sum id (\<lambda>s. length (events (snd s)))
          (process_issue lib0 LAUNCH0 now0 config0 Map.empty issue_quiet) = Inr 1"
    by (simp add: issue_quiet_def eval_defs)
  then obtain UPDATES' t' where
    r: "process_issue lib0 LAUNCH0 now0 config0 Map.empty issue_quiet = Inr (UPDATES', t')"
    and l: "length (events t') = 1"
    by (cases "process_issue lib0 LAUNCH0 now0 config0 Map.empty issue_quiet") auto
  have "\<exists>t. JiraTicket_init lib0 LAUNCH0 Map.empty config0 issue_quiet = Inr t
          \<and> \<not> pass_writes lib0 now0 t issue_quiet"
    by (simp add: issue_quiet_def pass_writes_def list_writes_def writes_author_def eval_defs)
  then obtain ticket where
    i: "JiraTicket_init lib0 LAUNCH0 Map.empty config0 issue_quiet = Inr ticket"
    and n: "\<not> pass_writes lib0 now0 ticket issue_quiet"
    by auto
  from snapshot_unchanged_unless_author_written[OF r i] n have "json_data t' = issue_quiet"
    by simp
  with r i n l show ?thesis by blast
qed

section \<open>Malformed input\<close>

lemma malformed_init:
  assumes "malformed_snapshot lib issue"
  shows "\<exists>e. JiraTicket_init lib LAUNCH_TIME UPDATES config issue = Inl e"
proof -
  from assms obtain kvs where i: "issue = JObj kvs"
    by (cases issue) (auto simp: malformed_snapshot_def)
  show ?thesis
  proof (cases "map_of kvs ''key''")
    case None
    then show ?thesis by (simp add: i JiraTicket_init_def)
  next
    case (Some k)
    note k = this
    show ?thesis
    proof (cases "map_of kvs ''fields''")
      case None
      with k show ?thesis by (simp add: i JiraTicket_init_def)
    next
      case (Some fs)
      with assms k i obtain fkvs where fs: "fs = JObj fkvs"
        by (cases fs) (auto simp: malformed_snapshot_def)
      show ?thesis
      proof (cases "map_of fkvs ''created''")
        case None
        with k Some fs show ?thesis by (simp add: i JiraTicket_init_def split: option.splits)
      next
        case (Some c)
        with assms k i fs \<open>map_of kvs ''fields'' = Some fs\<close>
        obtain s where c: "c = JStr s" "strptime lib s = None"
          by (cases c) (auto simp: malformed_snapshot_def)
        with k Some fs \<open>map_of kvs ''fields'' = Some fs\<close> show ?thesis
          by (simp add: i JiraTicket_init_def split: option.splits)
      qed
    qed
  qed
qed

lemma malformed_pass:
  assumes "malformed_snapshot lib issue"
  shows "\<exists>e. process_issue lib LAUNCH_TIME now config UPDATES issue = Inl e"
proof -
  from malformed_init[OF assms] obtain e where
    "JiraTicket_init lib LAUNCH_TIME UPDATES config issue = Inl e"
    by blast
  then show ?thesis by (simp add: process_issue_def)
qed

text \<open>The loop stops at the first issue that raises, so a malformed snapshot anywhere in
  the change set ends the cycle with an exception.\<close>

lemma malformed_loop:
  assumes "malformed_snapshot lib issue" and "issue \<in> set changes"
  shows "\<exists>e. process_loop lib LAUNCH_TIME now config UPDATES changes = Inl e"
  using assms(2)
proof (induction changes arbitrary: UPDATES)
  case Nil
  then show ?case by simp
next
  case (Cons x xs)
  show ?case
  proof (cases "process_issue lib LAUNCH_TIME now config UPDATES x")
    case (Inl e)
    then show ?thesis by simp
  next
    case (Inr s)
    with malformed_pass[OF assms(1), of LAUNCH_TIME now config UPDATES] have "x \<noteq> issue"
      by auto
    with Cons.prems have mem: "issue \<in> set xs" by simp
    show ?thesis
    proof (cases "post_events lib config (events (snd s))")
      case (Inl e)
      with Inr show ?thesis by simp
    next
      case (Inr outs)
      from Cons.IH[OF mem, of "fst s"] obtain e where
        "process_loop lib LAUNCH_TIME now config (fst s) xs = Inl e"
        by blast
      with Inr \<open>process_issue lib LAUNCH_TIME now config UPDATES x = Inr s\<close> show ?thesis
        by simp
    qed
  qed
qed

lemma scan_entries_skips:
  assumes "map_of kvs ''created'' = None"
  shows "scan_entries lib t classify (JObj kvs # rest) =
           andthen (scan_entries lib t classify rest) (\<lambda>r. Inr (JObj kvs # fst r, snd r))"
  using make_event_dict_no_created[OF assms, of lib t]
  by (simp add: scan_entries.simps)

text \<open>
  C10. Only sub-records are tolerated when malformed: an entry of one of the three lists
  that has no creation time is passed over, without an event and without an error, and the
  loop goes on with the rest of the list. A snapshot that lacks its key, its fields or the
  creation time in its fields, or whose creation time does not parse, makes the pass raise,
  and the exception ends \<^verbatim>\<open>process_changes\<close> for the whole change set.
\<close>

theorem malformed_snapshot_aborts_cycle:
  "(map_of kvs ''created'' = None \<longrightarrow>
      make_event_dict lib t (JObj kvs) = Inr (JObj kvs, None) \<and>
      scan_entries lib t classify (JObj kvs # rest) =
        andthen (scan_entries lib t classify rest) (\<lambda>r. Inr (JObj kvs # fst r, snd r))) \<and>
   (malformed_snapshot lib issue \<and> issue \<in> set changes \<longrightarrow>
      (\<exists>e. process_issue lib LAUNCH_TIME now config UPDATES issue = Inl e) \<and>
      (\<exists>e. process_changes lib LAUNCH_TIME now config UPDATES (JArr changes) = Inl e))"
  using make_event_dict_no_created[of kvs lib t] scan_entries_skips[of kvs lib t classify rest]
    malformed_pass[of lib issue LAUNCH_TIME now config UPDATES]
    malformed_loop[of lib issue changes LAUNCH_TIME now config UPDATES]
  by (simp add: process_changes_def)

theorem malformed_snapshot_aborts_cycle_witness:
  "scan_entries lib0 ticket_comment (classify_comment ticket_comment)
     [JObj [(''body'', JStr ''no time'')]] = Inr ([JObj [(''body'', JStr ''no time'')]], [])
   \<and> malformed_snapshot lib0 issue_no_fields
   \<and> (\<exists>e. process_changes lib0 LAUNCH0 now0 config0 Map.empty
             (JArr [issue_status, issue_no_fields]) = Inl e)"
proof -
  have c: "map_of [(''body'', JStr ''no time'')] ''created'' = None" by simp
  have m: "malformed_snapshot lib0 issue_no_fields"
    by (simp add: malformed_snapshot_def issue_no_fields_def)
  have mem: "issue_no_fields \<in> set [issue_status, issue_no_fields]" by simp
  note th = malformed_snapshot_aborts_cycle[of "[(''body'', JStr ''no time'')]" lib0 ticket_comment
      "classify_comment ticket_comment" "[]" issue_no_fields "[issue_status, issue_no_fields]"
      LAUNCH0 now0 config0 Map.empty]
  from th c have "scan_entries lib0 ticket_comment (classify_comment ticket_comment)
     [JObj [(''body'', JStr ''no time'')]] = Inr ([JObj [(''body'', JStr ''no time'')]], [])"
    by simp
  moreover from th m mem
  have "\<exists>e. process_changes lib0 LAUNCH0 now0 config0 Map.empty
             (JArr [issue_status, issue_no_fields]) = Inl e"
    by blast
  ultimately show ?thesis using m by blast
qed

text \<open>The exception in the example is the \<open>KeyError\<close> for \<open>fields\<close>, raised after the
  first issue of the change set has been processed.\<close>

lemma malformed_example_error:
  "process_changes lib0 LAUNCH0 now0 config0 Map.empty (JArr [issue_status, issue_no_fields])
   = Inl (KeyError ''fields'')"
  by (simp add: issue_status_def issue_no_fields_def eval_defs)

end
